theory Spec2Isabelle
  imports
    Complex_Main
    "HOL-Library.Sublist"
    "HOL-Library.AList"
    "HOL-Library.Char_ord"
    "HOL-Library.List_Lexorder"
    "HOL-Library.Product_Lexorder"
begin

chapter \<open>The gnapsis benchmark harness: the programs\<close>

text \<open>
  A shallow embedding of \<^verbatim>\<open>bench/run.py\<close>, \<^verbatim>\<open>bench/judge.py\<close> and
  \<^verbatim>\<open>bench/analyze.py\<close>. All definitions come first, in the order of the three
  source files; the lemmas and theorems follow.
\<close>

section \<open>Python values\<close>

text \<open>
  The three scripts exchange JSON documents. A decoded document is a \<open>json\<close> value;
  Python's \<open>int\<close> and \<open>float\<close> are both read as exact reals (no rounding is
  modelled), a \<open>dict\<close> is an association list in insertion order.
\<close>

datatype json =
    JNull
  | JBool bool
  | JNum real
  | JStr string
  | JArr "json list"
  | JObj "(string \<times> json) list"

type_synonym dict = "(string \<times> json) list"

text \<open>The exceptions the modelled code can raise and does not catch.\<close>

datatype py_exn = TypeError | AttributeError | KeyError | ValueError

text \<open>\<open>d.get(k, default)\<close>, \<open>k in d\<close> and \<open>d[k] = v\<close> on a dict.\<close>

definition dict_get :: "dict \<Rightarrow> string \<Rightarrow> json \<Rightarrow> json" where
  "dict_get d k dflt = (case map_of d k of Some v \<Rightarrow> v | None \<Rightarrow> dflt)"

definition has_key :: "dict \<Rightarrow> string \<Rightarrow> bool" where
  "has_key d k = (map_of d k \<noteq> None)"

definition dict_set :: "dict \<Rightarrow> string \<Rightarrow> json \<Rightarrow> dict" where
  "dict_set d k v = AList.update k v d"

text \<open>Truthiness, as \<open>if x\<close>, \<open>not x\<close> and \<open>x or y\<close> read it.\<close>

fun truthy :: "json \<Rightarrow> bool" where
  "truthy JNull = False"
| "truthy (JBool b) = b"
| "truthy (JNum x) = (x \<noteq> 0)"
| "truthy (JStr s) = (s \<noteq> [])"
| "truthy (JArr xs) = (xs \<noteq> [])"
| "truthy (JObj d) = (d \<noteq> [])"

text \<open>The number a value stands for in arithmetic; \<open>bool\<close> is a subclass of \<open>int\<close>.\<close>

fun num_of :: "json \<Rightarrow> real option" where
  "num_of (JNum x) = Some x"
| "num_of (JBool b) = Some (if b then 1 else 0)"
| "num_of _ = None"

text \<open>
  \<open>a + b\<close>: numbers add, two strings or two lists concatenate, anything else is a
  \<open>TypeError\<close>. \<open>a - b\<close> and \<open>a >= 0\<close> are defined on numbers only.
\<close>

fun py_add :: "json \<Rightarrow> json \<Rightarrow> py_exn + json" where
  "py_add (JStr a) (JStr b) = Inr (JStr (a @ b))"
| "py_add (JArr a) (JArr b) = Inr (JArr (a @ b))"
| "py_add a b =
     (case (num_of a, num_of b) of
        (Some x, Some y) \<Rightarrow> Inr (JNum (x + y))
      | _ \<Rightarrow> Inl TypeError)"

definition py_sub :: "json \<Rightarrow> json \<Rightarrow> py_exn + real" where
  "py_sub a b =
     (case (num_of a, num_of b) of
        (Some x, Some y) \<Rightarrow> Inr (x - y)
      | _ \<Rightarrow> Inl TypeError)"

definition py_ge0 :: "json \<Rightarrow> py_exn + bool" where
  "py_ge0 v = (case num_of v of Some x \<Rightarrow> Inr (0 \<le> x) | None \<Rightarrow> Inl TypeError)"

subsection \<open>Strings\<close>

text \<open>
  A Python \<open>str\<close> is a sequence of code points. A \<open>char\<close> here is a code point below
  256; on these, \<open>str.isspace\<close> (which is also the regular expression class \<open>\s\<close> and
  what \<open>str.strip\<close> removes), the class \<open>\d\<close> and \<open>str.lower\<close> are as follows.
\<close>

definition isspace :: "char \<Rightarrow> bool" where
  "isspace c =
     (let n = (of_char c :: nat)
      in (9 \<le> n \<and> n \<le> 13) \<or> (28 \<le> n \<and> n \<le> 32) \<or> n = 133 \<or> n = 160)"

definition isdigit :: "char \<Rightarrow> bool" where
  "isdigit c = (let n = (of_char c :: nat) in 48 \<le> n \<and> n \<le> 57)"

definition lower_char :: "char \<Rightarrow> char" where
  "lower_char c =
     (let n = (of_char c :: nat)
      in if (65 \<le> n \<and> n \<le> 90) \<or> (192 \<le> n \<and> n \<le> 222 \<and> n \<noteq> 215)
         then char_of (n + 32) else c)"

definition lower :: "string \<Rightarrow> string" where
  "lower s = map lower_char s"

definition strip :: "string \<Rightarrow> string" where
  "strip s = rev (dropWhile isspace (rev (dropWhile isspace s)))"

text \<open>\<open>sub in s\<close> on strings: \<open>sub\<close> occurs in \<open>s\<close> as a contiguous block.\<close>

primrec contains :: "string \<Rightarrow> string \<Rightarrow> bool" where
  "contains sub [] = (sub = [])"
| "contains sub (c # cs) = (prefix sub (c # cs) \<or> contains sub cs)"

text \<open>\<open>int(s)\<close> on a non-empty string of decimal digits.\<close>

definition int_of_digits :: "string \<Rightarrow> nat" where
  "int_of_digits ds = foldl (\<lambda>a c. 10 * a + (of_char c - 48)) 0 ds"

text \<open>\<open>str(n)\<close> for a natural number.\<close>

fun str_nat :: "nat \<Rightarrow> string" where
  "str_nat n =
     (if n < 10 then [char_of (48 + n)]
      else str_nat (n div 10) @ [char_of (48 + n mod 10)])"

declare str_nat.simps [simp del]

subsection \<open>The external process\<close>

text \<open>
  \<open>subprocess.run(cmd, capture_output=True, text=True, timeout=...)\<close> either raises
  \<open>TimeoutExpired\<close> or returns the exit code and the two captured streams. The
  command line itself (prompt, model, turn budget) is not modelled: the process is a
  black box, and only its outcome reaches the code below.
\<close>

datatype proc =
    TimeoutExpired
  | Completed (returncode: int) (stdout: string) (stderr: string)

text \<open>
  \<open>json.loads\<close> is the standard library's decoder. It is a parameter \<open>loads\<close> of
  every function that calls it: \<open>None\<close> stands for \<open>JSONDecodeError\<close>.
\<close>

type_synonym decoder = "string \<Rightarrow> json option"

section \<open>judge.py\<close>

subsection \<open>\<open>count_keyword_hits\<close>\<close>

text \<open>The \<open>for kw in keywords\<close> loop, with \<open>hits\<close> as the accumulator.\<close>

fun keyword_loop :: "string \<Rightarrow> string list \<Rightarrow> string list \<Rightarrow> string list" where
  "keyword_loop text_lower [] hits = hits"
| "keyword_loop text_lower (kw # kws) hits =
     keyword_loop text_lower kws
       (if contains (lower kw) text_lower then hits @ [kw] else hits)"

definition count_keyword_hits :: "string \<Rightarrow> string list \<Rightarrow> nat \<times> string list" where
  "count_keyword_hits text keywords =
     (let text_lower = lower text;
          hits = keyword_loop text_lower keywords []
      in (length hits, hits))"

subsection \<open>\<open>judge_answer\<close>\<close>

text \<open>
  \<open>re.sub(r"```json\s*|\s*```", "", text)\<close>: scanning from the left, a match at the
  current position is dropped and the scan goes on behind it; where neither alternative
  matches, one character is kept. The first alternative is tried first. Each \<open>\s*\<close>
  is followed by a character that is no whitespace, so it can only stand for the whole
  run of whitespace.
\<close>

function strip_fences :: "string \<Rightarrow> string" where
  "strip_fences [] = []"
| "strip_fences (c # cs) =
     (if prefix ''```json'' (c # cs)
      then strip_fences (dropWhile isspace (drop 7 (c # cs)))
      else if prefix ''```'' (dropWhile isspace (c # cs))
      then strip_fences (drop 3 (dropWhile isspace (c # cs)))
      else c # strip_fences cs)"
  by pat_completeness auto
termination
proof (relation "measure length")
  show "wf (measure length)" by simp
next
  fix c cs
  have "length (dropWhile isspace (drop 7 (c # cs))) \<le> length (drop 7 (c # cs))"
    by (rule length_dropWhile_le)
  then show "(dropWhile isspace (drop 7 (c # cs)), c # cs) \<in> measure length" by simp
next
  fix c cs
  assume "prefix ''```'' (dropWhile isspace (c # cs))"
  then have "3 \<le> length (dropWhile isspace (c # cs))"
    by (auto simp: prefix_def)
  moreover have "length (dropWhile isspace (c # cs)) \<le> length (c # cs)"
    by (rule length_dropWhile_le)
  ultimately show "(drop 3 (dropWhile isspace (c # cs)), c # cs) \<in> measure length"
    by simp
next
  fix c cs
  show "(cs, c # cs) \<in> measure length" by simp
qed

text \<open>
  \<open>re.search(r'"score"\s*:\s*(\d+)', text)\<close>: \<open>match_score_at\<close> is the pattern
  anchored at the head of the string and returns group 1, \<open>search_score\<close> tries every
  start position from the left and returns the first match.
\<close>

definition match_score_at :: "string \<Rightarrow> string option" where
  "match_score_at s =
     (if prefix ''\"score\"'' s
      then (case dropWhile isspace (drop 7 s) of
              [] \<Rightarrow> None
            | c # r \<Rightarrow>
                if c = CHR '':''
                then (let ds = takeWhile isdigit (dropWhile isspace r)
                      in if ds = [] then None else Some ds)
                else None)
      else None)"

fun search_score :: "string \<Rightarrow> string option" where
  "search_score [] = None"
| "search_score (c # cs) =
     (case match_score_at (c # cs) of
        Some ds \<Rightarrow> Some ds
      | None \<Rightarrow> search_score cs)"

text \<open>The dict literal \<open>{"score": ..., "reasoning": ...}\<close>.\<close>

definition score_dict :: "json \<Rightarrow> string \<Rightarrow> dict" where
  "score_dict sc reasoning = [(''score'', sc), (''reasoning'', JStr reasoning)]"

text \<open>
  Lines 117 to 130, the \<open>try\<close> block and its handler. \<open>re.sub\<close> on a value that is
  no string raises \<open>TypeError\<close>, which the handler catches; its \<open>re.search\<close> then
  raises \<open>TypeError\<close> again, and nothing catches that one.
\<close>

definition parse_score :: "decoder \<Rightarrow> json \<Rightarrow> py_exn + json" where
  "parse_score loads result_text =
     (case result_text of
        JStr t \<Rightarrow>
          (case loads (strip (strip_fences t)) of
             Some score_data \<Rightarrow> Inr score_data
           | None \<Rightarrow>
               (case search_score t of
                  Some ds \<Rightarrow>
                    Inr (JObj (score_dict (JNum (real (int_of_digits ds))) (take 200 t)))
                | None \<Rightarrow>
                    Inr (JObj (score_dict (JNum (- 1)) (''Failed to parse: '' @ take 200 t)))))
      | _ \<Rightarrow> Inl TypeError)"

text \<open>\<open>score_data["judge_cost_usd"] = judge_cost\<close>: item assignment needs a dict.\<close>

definition set_item :: "json \<Rightarrow> string \<Rightarrow> json \<Rightarrow> py_exn + dict" where
  "set_item v k x = (case v of JObj d \<Rightarrow> Inr (dict_set d k x) | _ \<Rightarrow> Inl TypeError)"

text \<open>
  \<open>judge_answer\<close> from the outcome \<open>p\<close> of its \<open>subprocess.run\<close> call. Only a dict has
  \<open>.get\<close>: on any other decoded envelope \<open>response.get\<close> is an \<open>AttributeError\<close>.
\<close>

definition judge_answer :: "decoder \<Rightarrow> proc \<Rightarrow> py_exn + dict" where
  "judge_answer loads p =
     (case p of
        TimeoutExpired \<Rightarrow> Inr (score_dict (JNum (- 1)) ''Judge timed out'')
      | Completed rc out err \<Rightarrow>
          if rc \<noteq> 0 \<and> strip out = []
          then Inr (score_dict (JNum (- 1)) (''Judge error: '' @ take 200 err))
          else
            (case loads out of
               None \<Rightarrow> Inr (score_dict (JNum (- 1)) ''Judge JSON parse error'')
             | Some response \<Rightarrow>
                 (case response of
                    JObj r \<Rightarrow>
                      (let result_text = dict_get r ''result'' (JStr []);
                           judge_cost = dict_get r ''total_cost_usd'' (JNum 0)
                       in case parse_score loads result_text of
                            Inl e \<Rightarrow> Inl e
                          | Inr score_data \<Rightarrow> set_item score_data ''judge_cost_usd'' judge_cost)
                  | _ \<Rightarrow> Inl AttributeError)))"

subsection \<open>The judge pass (\<open>main\<close>)\<close>

text \<open>
  A task of \<^verbatim>\<open>tasks.json\<close> (read-only configuration), and a persisted run record:
  the identity triple, which \<^verbatim>\<open>run.py\<close> always writes as two strings and a
  number, and the other keys of the JSON document.
\<close>

record task =
  ident :: string
  prompt :: string
  rubric :: string
  expected_answer_keywords :: "string list"
  max_turns :: "nat option"

record run_record =
  task_id :: string
  condition :: string
  run_id :: nat
  attrs :: dict

text \<open>
  \<open>load_results(task_ids)\<close> of \<^verbatim>\<open>judge.py\<close>, from the directory listing in
  sorted order (file name and decoded content).
\<close>

definition load_results_judge ::
  "string list option \<Rightarrow> (string \<times> run_record) list \<Rightarrow> (string \<times> run_record) list" where
  "load_results_judge task_ids listing =
     filter (\<lambda>(name, data).
        name \<noteq> ''all_results.json'' \<and>
        \<not> has_key (attrs data) ''error'' \<and>
        (case task_ids of
           None \<Rightarrow> True
         | Some ids \<Rightarrow> ids = [] \<or> task_id data \<in> set ids)) listing"

text \<open>
  A Python loop whose body may raise: the state is threaded through, and an exception
  ends the loop with the state reached so far (what is on disk stays on disk).
\<close>

fun for_each :: "('a \<Rightarrow> 's \<Rightarrow> ('e \<times> 's) + 's) \<Rightarrow> 'a list \<Rightarrow> 's \<Rightarrow> ('e \<times> 's) + 's" where
  "for_each body [] s = Inr s"
| "for_each body (x # xs) s =
     (case body x s of
        Inl crash \<Rightarrow> Inl crash
      | Inr s' \<Rightarrow> for_each body xs s')"

definition final_state :: "('e \<times> 's) + 's \<Rightarrow> 's" where
  "final_state r = (case r of Inl (e, s) \<Rightarrow> s | Inr s \<Rightarrow> s)"

text \<open>
  The state of the judge pass: the result files, the number of grader processes started
  so far, and \<open>total_judge_cost\<close>. The \<open>k\<close>-th grader process ends with outcome
  \<open>grader k\<close>.
\<close>

record jstate =
  files :: "string \<Rightarrow> run_record option"
  calls :: nat
  total_judge_cost :: real

definition write_back :: "string \<Rightarrow> run_record \<Rightarrow> jstate \<Rightarrow> jstate" where
  "write_back path data st = st\<lparr>files := (files st)(path \<mapsto> data)\<rparr>"

text \<open>
  \<open>not args.force and "quality_score" in data and data["quality_score"] >= 0\<close>,
  evaluated left to right.
\<close>

definition already_scored :: "bool \<Rightarrow> dict \<Rightarrow> py_exn + bool" where
  "already_scored force d =
     (if force then Inr False
      else if \<not> has_key d ''quality_score'' then Inr False
      else py_ge0 (dict_get d ''quality_score'' JNull))"

text \<open>The three keyword fields set on \<open>data\<close> (lines 170 to 173).\<close>

definition set_keyword_fields :: "task \<Rightarrow> string \<Rightarrow> dict \<Rightarrow> dict" where
  "set_keyword_fields t answer d =
     (let (hits, hit_list) = count_keyword_hits answer (expected_answer_keywords t);
          d1 = dict_set d ''keyword_hits'' (JNum (real hits));
          d2 = dict_set d1 ''keyword_total''
                 (JNum (real (length (expected_answer_keywords t))))
      in dict_set d2 ''keyword_list'' (JArr (map JStr hit_list)))"

text \<open>The three judge fields set from \<open>score_data\<close> (lines 184 to 186).\<close>

definition set_judge_fields :: "dict \<Rightarrow> dict \<Rightarrow> dict" where
  "set_judge_fields score_data d =
     (let d1 = dict_set d ''quality_score'' (dict_get score_data ''score'' (JNum (- 1)));
          d2 = dict_set d1 ''quality_reasoning'' (dict_get score_data ''reasoning'' (JStr []))
      in dict_set d2 ''judge_cost_usd'' (dict_get score_data ''judge_cost_usd'' (JNum 0)))"

text \<open>
  The body of the loop over the loaded results. \<open>continue\<close> returns the state as it
  is, without the write-back at the end of the body. \<open>answer.lower()\<close> on a value that
  is no string is an \<open>AttributeError\<close>; \<open>total_judge_cost += ...\<close> needs a number.
\<close>

definition judge_record ::
  "decoder \<Rightarrow> (nat \<Rightarrow> proc) \<Rightarrow> (string \<Rightarrow> task option) \<Rightarrow> bool \<Rightarrow> bool \<Rightarrow>
   string \<times> run_record \<Rightarrow> jstate \<Rightarrow> (py_exn \<times> jstate) + jstate" where
  "judge_record loads grader tasks force keywords_only pd st =
     (case tasks (task_id (snd pd)) of
        None \<Rightarrow> Inr st
      | Some t \<Rightarrow>
          (let answer = dict_get (attrs (snd pd)) ''result_text'' (JStr [])
           in if \<not> truthy answer then Inr st
              else
                (case answer of
                   JStr txt \<Rightarrow>
                     (let d = set_keyword_fields t txt (attrs (snd pd))
                      in if keywords_only
                         then Inr (write_back (fst pd) ((snd pd)\<lparr>attrs := d\<rparr>) st)
                         else
                           (case already_scored force d of
                              Inl e \<Rightarrow> Inl (e, st)
                            | Inr True \<Rightarrow> Inr st
                            | Inr False \<Rightarrow>
                                (let st1 = st\<lparr>calls := calls st + 1\<rparr>
                                 in case judge_answer loads (grader (calls st)) of
                                      Inl e \<Rightarrow> Inl (e, st1)
                                    | Inr score_data \<Rightarrow>
                                        (let d' = set_judge_fields score_data d
                                         in case num_of (dict_get d' ''judge_cost_usd'' JNull) of
                                              None \<Rightarrow> Inl (TypeError, st1)
                                            | Some cost \<Rightarrow>
                                                Inr (write_back (fst pd)
                                                       ((snd pd)\<lparr>attrs := d'\<rparr>)
                                                       (st1\<lparr>total_judge_cost :=
                                                          total_judge_cost st1 + cost\<rparr>))))))
                 | _ \<Rightarrow> Inl (AttributeError, st))))"

definition judge_pass ::
  "decoder \<Rightarrow> (nat \<Rightarrow> proc) \<Rightarrow> (string \<Rightarrow> task option) \<Rightarrow> bool \<Rightarrow> bool \<Rightarrow>
   (string \<times> run_record) list \<Rightarrow> jstate \<Rightarrow> (py_exn \<times> jstate) + jstate" where
  "judge_pass loads grader tasks force keywords_only results st =
     for_each (judge_record loads grader tasks force keywords_only) results st"

section \<open>run.py\<close>

text \<open>The condition names and the tool configuration each one stands for.\<close>

definition CONDITIONS :: "(string \<times> string) list" where
  "CONDITIONS =
     [(''baseline'', ''config/mcp-baseline.json''),
      (''with-gnapsis'', ''config/mcp-with-gnapsis.json'')]"

subsection \<open>\<open>run_task\<close>\<close>

text \<open>The record \<open>run_task\<close> returns for a cell that produced no usable response.\<close>

definition failure :: "task \<Rightarrow> string \<Rightarrow> nat \<Rightarrow> string \<Rightarrow> run_record" where
  "failure t cond rid msg =
     \<lparr>task_id = ident t, condition = cond, run_id = rid, attrs = [(''error'', JStr msg)]\<rparr>"

text \<open>
  \<open>run_task\<close> from the outcome \<open>p\<close> of its \<open>subprocess.run\<close> call and the wall time
  \<open>wall\<close> it measures (\<open>round(elapsed, 2)\<close>, a number read off the clock). The turn
  budget only goes into the command line. \<open>CONDITIONS[condition]\<close> is a \<open>KeyError\<close> for
  a name that is no condition; \<open>response.get\<close> and \<open>usage.get\<close> are an
  \<open>AttributeError\<close> on a decoded value that is no dict. In a dry run no process is
  started and \<open>None\<close> is returned.
\<close>

definition run_task ::
  "decoder \<Rightarrow> proc \<Rightarrow> real \<Rightarrow> task \<Rightarrow> string \<Rightarrow> nat \<Rightarrow> string \<Rightarrow> bool \<Rightarrow>
   py_exn + run_record option" where
  "run_task loads p wall t cond rid model dry_run =
     (case map_of CONDITIONS cond of
        None \<Rightarrow> Inl KeyError
      | Some mcp_config \<Rightarrow>
          if dry_run then Inr None
          else
            (case p of
               TimeoutExpired \<Rightarrow> Inr (Some (failure t cond rid ''timeout''))
             | Completed rc out err \<Rightarrow>
                 if rc \<noteq> 0 \<and> strip out = []
                 then Inr (Some (failure t cond rid (take 500 err)))
                 else
                   (case loads out of
                      None \<Rightarrow>
                        Inr (Some (failure t cond rid (''JSON parse error: '' @ take 200 out)))
                    | Some response \<Rightarrow>
                        (case response of
                           JObj r \<Rightarrow>
                             (case dict_get r ''usage'' (JObj []) of
                                JObj usage \<Rightarrow>
                                  Inr (Some
                                    \<lparr>task_id = ident t, condition = cond, run_id = rid,
                                     attrs =
                                       [(''model'', JStr model),
                                        (''num_turns'', dict_get r ''num_turns'' (JNum 0)),
                                        (''duration_ms'', dict_get r ''duration_ms'' (JNum 0)),
                                        (''duration_api_ms'',
                                           dict_get r ''duration_api_ms'' (JNum 0)),
                                        (''total_cost_usd'',
                                           dict_get r ''total_cost_usd'' (JNum 0)),
                                        (''input_tokens'',
                                           dict_get usage ''input_tokens'' (JNum 0)),
                                        (''output_tokens'',
                                           dict_get usage ''output_tokens'' (JNum 0)),
                                        (''cache_read_input_tokens'',
                                           dict_get usage ''cache_read_input_tokens'' (JNum 0)),
                                        (''cache_creation_input_tokens'',
                                           dict_get usage ''cache_creation_input_tokens'' (JNum 0)),
                                        (''is_error'', dict_get r ''is_error'' (JBool False)),
                                        (''session_id'', dict_get r ''session_id'' (JStr [])),
                                        (''result_text'', dict_get r ''result'' (JStr [])),
                                        (''wall_time_s'', JNum wall)]\<rparr>)
                              | _ \<Rightarrow> Inl AttributeError)
                         | _ \<Rightarrow> Inl AttributeError))))"

subsection \<open>\<open>save_result\<close> and \<open>run_benchmark\<close>\<close>

text \<open>The file name \<open>save_result\<close> writes a record to.\<close>

definition result_path :: "run_record \<Rightarrow> string" where
  "result_path r =
     task_id r @ ''_'' @ condition r @ ''_run'' @ str_nat (run_id r) @ ''.json''"

text \<open>
  What the batch leaves behind: a file holds one record, or (\<^verbatim>\<open>all_results.json\<close>)
  the list of all of them. The log keeps the order of what happened: a cell begins, a
  record is written, the combined file is written.
\<close>

datatype stored = OneResult run_record | AllResults "run_record list"

datatype event =
    Started nat string string
  | Saved string run_record
  | SavedAll "run_record list"

record bstate =
  completed :: nat
  all_results :: "run_record list"
  written :: "string \<Rightarrow> stored option"
  history :: "event list"

definition save_result :: "run_record \<Rightarrow> bstate \<Rightarrow> bstate" where
  "save_result result st =
     st\<lparr>written := (written st)(result_path result \<mapsto> OneResult result),
        history := history st @ [Saved (result_path result) result]\<rparr>"

text \<open>
  A value under the format \<open>:.4f\<close>: a number is printed, a string is a \<open>ValueError\<close>,
  anything else a \<open>TypeError\<close>.
\<close>

definition format_float :: "json \<Rightarrow> py_exn + real" where
  "format_float v =
     (case num_of v of
        Some x \<Rightarrow> Inr x
      | None \<Rightarrow> (case v of JStr s \<Rightarrow> Inl ValueError | _ \<Rightarrow> Inl TypeError))"

text \<open>
  The progress line printed after a record is saved (lines 184 to 193). Its text is
  not modelled, its exceptions are: the token sum and the formatted cost.
\<close>

definition progress_line :: "run_record \<Rightarrow> py_exn + unit" where
  "progress_line result =
     (if has_key (attrs result) ''error'' then Inr ()
      else
        (case py_add (dict_get (attrs result) ''input_tokens'' JNull)
                     (dict_get (attrs result) ''output_tokens'' JNull) of
           Inl e \<Rightarrow> Inl e
         | Inr tokens \<Rightarrow>
             (case format_float (dict_get (attrs result) ''total_cost_usd'' JNull) of
                Inl e \<Rightarrow> Inl e
              | Inr cost \<Rightarrow> Inr ())))"

text \<open>
  The body of the innermost loop. The \<open>k\<close>-th cell of the batch (counted from 0) finds
  its process ending with \<open>fst (agent k)\<close> after the wall time \<open>snd (agent k)\<close>. A
  record returned by \<open>run_task\<close> is a non-empty dict, so \<open>if result\<close> only tests for
  \<open>None\<close>. The pause between cells is not modelled.
\<close>

definition run_cell ::
  "decoder \<Rightarrow> (nat \<Rightarrow> proc \<times> real) \<Rightarrow> string \<Rightarrow> bool \<Rightarrow> nat \<Rightarrow> task \<Rightarrow> string \<Rightarrow>
   bstate \<Rightarrow> (py_exn \<times> bstate) + bstate" where
  "run_cell loads agent model dry_run rid t cond st =
     (let st1 = st\<lparr>completed := completed st + 1,
                    history := history st @ [Started rid (ident t) cond]\<rparr>
      in case run_task loads (fst (agent (completed st))) (snd (agent (completed st)))
                t cond rid model dry_run of
           Inl e \<Rightarrow> Inl (e, st1)
         | Inr None \<Rightarrow> Inr st1
         | Inr (Some result) \<Rightarrow>
             (let st2 = save_result result (st1\<lparr>all_results := all_results st1 @ [result]\<rparr>)
              in case progress_line result of
                   Inl e \<Rightarrow> Inl (e, st2)
                 | Inr u \<Rightarrow> Inr st2))"

definition start_state :: bstate where
  "start_state = \<lparr>completed = 0, all_results = [], written = Map.empty, history = []\<rparr>"

text \<open>
  The three nested loops, repetition outermost, and the combined file at the end.
  \<open>range(1, num_runs + 1)\<close> is empty for \<open>num_runs\<close> below 1.
\<close>

definition run_benchmark ::
  "decoder \<Rightarrow> (nat \<Rightarrow> proc \<times> real) \<Rightarrow> task list \<Rightarrow> nat \<Rightarrow> string list \<Rightarrow> string \<Rightarrow> bool \<Rightarrow>
   (py_exn \<times> bstate) + bstate" where
  "run_benchmark loads agent tasks num_runs conditions model dry_run =
     (case for_each
             (\<lambda>rid. for_each
                (\<lambda>t. for_each
                   (\<lambda>cond. run_cell loads agent model dry_run rid t cond)
                   conditions)
                tasks)
             [1 ..< num_runs + 1] start_state of
        Inl crash \<Rightarrow> Inl crash
      | Inr st \<Rightarrow>
          if all_results st \<noteq> []
          then Inr (st\<lparr>written := (written st)(''all_results.json'' \<mapsto> AllResults (all_results st)),
                      history := history st @ [SavedAll (all_results st)]\<rparr>)
          else Inr st)"

text \<open>
  The order the batch is meant to go through its cells: repetition outermost, then
  task, then condition.
\<close>

definition cell_order :: "nat \<Rightarrow> task list \<Rightarrow> string list \<Rightarrow> (nat \<times> task \<times> string) list" where
  "cell_order num_runs tasks conditions =
     [(rid, t, cond). rid \<leftarrow> [1 ..< num_runs + 1], t \<leftarrow> tasks, cond \<leftarrow> conditions]"

text \<open>What a cell that ends with the record \<open>r\<close> adds to the history.\<close>

definition cell_events :: "run_record \<Rightarrow> event list" where
  "cell_events r =
     [Started (run_id r) (task_id r) (condition r), Saved (result_path r) r]"

section \<open>analyze.py\<close>

text \<open>The metrics of the report: key and label (the print formats are not modelled).\<close>

definition METRICS :: "(string \<times> string) list" where
  "METRICS =
     [(''total_input_tokens'', ''Total In Tokens''),
      (''input_tokens'', ''  Non-cached''),
      (''cache_read_input_tokens'', ''  Cache Read''),
      (''cache_creation_input_tokens'', ''  Cache Create''),
      (''output_tokens'', ''Output Tokens''),
      (''total_cost_usd'', ''Cost (USD)''),
      (''num_turns'', ''Turns''),
      (''duration_ms'', ''Duration (ms)''),
      (''quality_score'', ''Quality (0-10)''),
      (''keyword_hits'', ''Keyword Hits'')]"

subsection \<open>\<open>load_results\<close>\<close>

text \<open>Lines 45 to 49: the sum of the three token counts, each 0 when its key is missing.\<close>

definition total_input_tokens :: "dict \<Rightarrow> py_exn + json" where
  "total_input_tokens d =
     (case py_add (dict_get d ''input_tokens'' (JNum 0))
                  (dict_get d ''cache_read_input_tokens'' (JNum 0)) of
        Inl e \<Rightarrow> Inl e
      | Inr s \<Rightarrow> py_add s (dict_get d ''cache_creation_input_tokens'' (JNum 0)))"

text \<open>
  \<open>load_results()\<close> of \<^verbatim>\<open>analyze.py\<close>, from the directory listing in sorted order.
  The first record whose token counts do not add up raises.
\<close>

fun load_results :: "(string \<times> run_record) list \<Rightarrow> py_exn + run_record list" where
  "load_results [] = Inr []"
| "load_results ((name, data) # rest) =
     (if name = ''all_results.json'' \<or> has_key (attrs data) ''error''
      then load_results rest
      else
        (case total_input_tokens (attrs data) of
           Inl e \<Rightarrow> Inl e
         | Inr tot \<Rightarrow>
             (case load_results rest of
                Inl e \<Rightarrow> Inl e
              | Inr results \<Rightarrow>
                  Inr (data\<lparr>attrs := dict_set (attrs data) ''total_input_tokens'' tot\<rparr>
                       # results))))"

subsection \<open>\<open>compute_stats\<close>\<close>

text \<open>
  \<open>statistics.mean\<close>, \<open>statistics.median\<close> and \<open>statistics.stdev\<close> of the standard
  library, by their documentation, on a non-empty list of numbers (\<open>stdev\<close>: at least
  two), in exact arithmetic.
\<close>

definition statistics_mean :: "real list \<Rightarrow> real" where
  "statistics_mean xs = sum_list xs / real (length xs)"

definition statistics_median :: "real list \<Rightarrow> real" where
  "statistics_median xs =
     (let s = sort xs; n = length s
      in if n mod 2 = 1 then s ! (n div 2)
         else (s ! (n div 2 - 1) + s ! (n div 2)) / 2)"

definition statistics_stdev :: "real list \<Rightarrow> real" where
  "statistics_stdev xs =
     sqrt (sum_list (map (\<lambda>x. (x - statistics_mean xs)\<^sup>2) xs) / real (length xs - 1))"

record stats =
  mean :: real
  median :: real
  stdev :: real
  samples :: nat

text \<open>The statistics of a list of numbers; all 0 for the empty list.\<close>

definition stats_of :: "real list \<Rightarrow> stats" where
  "stats_of xs =
     (if xs = [] then \<lparr>mean = 0, median = 0, stdev = 0, samples = 0\<rparr>
      else \<lparr>mean = statistics_mean xs, median = statistics_median xs,
            stdev = (if length xs > 1 then statistics_stdev xs else 0),
            samples = length xs\<rparr>)"

text \<open>
  \<open>compute_stats(values)\<close>: the values come out of JSON documents, and
  \<open>statistics.mean\<close> raises \<open>TypeError\<close> on a value that is no number.
\<close>

definition compute_stats :: "json list \<Rightarrow> py_exn + stats" where
  "compute_stats vals =
     (if vals = [] then Inr \<lparr>mean = 0, median = 0, stdev = 0, samples = 0\<rparr>
      else
        (case those (map num_of vals) of
           None \<Rightarrow> Inl TypeError
         | Some xs \<Rightarrow>
             Inr \<lparr>mean = statistics_mean xs, median = statistics_median xs,
                  stdev = (if length xs > 1 then statistics_stdev xs else 0),
                  samples = length xs\<rparr>))"

subsection \<open>\<open>aggregate\<close>\<close>

text \<open>A list of results that stops at the first exception.\<close>

fun collect :: "('e + 'a) list \<Rightarrow> 'e + 'a list" where
  "collect [] = Inr []"
| "collect (x # xs) =
     (case x of
        Inl e \<Rightarrow> Inl e
      | Inr v \<Rightarrow> (case collect xs of Inl e \<Rightarrow> Inl e | Inr vs \<Rightarrow> Inr (v # vs)))"

text \<open>\<open>grouped.setdefault(key, []).append(r)\<close>, for all results in order.\<close>

fun group_runs ::
  "run_record list \<Rightarrow> ((string \<times> string) \<times> run_record list) list \<Rightarrow>
   ((string \<times> string) \<times> run_record list) list" where
  "group_runs [] grouped = grouped"
| "group_runs (r # rs) grouped =
     group_runs rs
       (case map_of grouped (task_id r, condition r) of
          None \<Rightarrow> grouped @ [((task_id r, condition r), [r])]
        | Some runs \<Rightarrow> AList.update (task_id r, condition r) (runs @ [r]) grouped)"

text \<open>\<open>[r.get(metric_key, 0) for r in runs if r.get(metric_key) is not None]\<close>\<close>

definition metric_values :: "run_record list \<Rightarrow> string \<Rightarrow> json list" where
  "metric_values runs metric_key =
     map (\<lambda>r. dict_get (attrs r) metric_key (JNum 0))
       (filter (\<lambda>r. dict_get (attrs r) metric_key JNull \<noteq> JNull) runs)"

text \<open>\<open>[v for v in values if v >= 0]\<close>: the comparison raises on a value that is no number.\<close>

fun filter_nonneg :: "json list \<Rightarrow> py_exn + json list" where
  "filter_nonneg [] = Inr []"
| "filter_nonneg (v # vs) =
     (case py_ge0 v of
        Inl e \<Rightarrow> Inl e
      | Inr keep \<Rightarrow>
          (case filter_nonneg vs of
             Inl e \<Rightarrow> Inl e
           | Inr rest \<Rightarrow> Inr (if keep then v # rest else rest)))"

text \<open>The statistics of one metric over the runs of a group (lines 82 to 86).\<close>

definition metric_stats :: "run_record list \<Rightarrow> string \<Rightarrow> py_exn + stats" where
  "metric_stats runs metric_key =
     (case (if metric_key = ''quality_score''
            then filter_nonneg (metric_values runs metric_key)
            else Inr (metric_values runs metric_key)) of
        Inl e \<Rightarrow> Inl e
      | Inr vals \<Rightarrow> compute_stats vals)"

text \<open>The loop over the metrics, with the entry's statistics columns as accumulator.\<close>

fun metric_loop :: "run_record list \<Rightarrow> string list \<Rightarrow> dict \<Rightarrow> py_exn + dict" where
  "metric_loop runs [] entry = Inr entry"
| "metric_loop runs (k # ks) entry =
     (case metric_stats runs k of
        Inl e \<Rightarrow> Inl e
      | Inr s \<Rightarrow>
          metric_loop runs ks
            (dict_set (dict_set (dict_set entry (k @ ''_mean'') (JNum (mean s)))
                         (k @ ''_median'') (JNum (median s)))
               (k @ ''_stdev'') (JNum (stdev s))))"

text \<open>
  Lines 92 to 95: the mean of input plus output tokens per run. A group has at least
  one run, so the list is never empty.
\<close>

definition total_tokens_mean :: "run_record list \<Rightarrow> py_exn + real" where
  "total_tokens_mean runs =
     (case collect (map (\<lambda>r. py_add (dict_get (attrs r) ''input_tokens'' (JNum 0))
                                     (dict_get (attrs r) ''output_tokens'' (JNum 0))) runs) of
        Inl e \<Rightarrow> Inl e
      | Inr total_tokens \<Rightarrow>
          if total_tokens = [] then Inr 0
          else (case those (map num_of total_tokens) of
                  None \<Rightarrow> Inl TypeError
                | Some xs \<Rightarrow> Inr (statistics_mean xs)))"

text \<open>
  An entry of the report: the group's identity, the number of its runs, and the
  statistics columns.
\<close>

record entry =
  entry_task_id :: string
  entry_condition :: string
  n_runs :: nat
  columns :: dict

definition make_entry :: "string \<times> string \<Rightarrow> run_record list \<Rightarrow> py_exn + entry" where
  "make_entry key runs =
     (case metric_loop runs (map fst METRICS) [] of
        Inl e \<Rightarrow> Inl e
      | Inr cols \<Rightarrow>
          (case total_tokens_mean runs of
             Inl e \<Rightarrow> Inl e
           | Inr m \<Rightarrow>
               Inr \<lparr>entry_task_id = fst key, entry_condition = snd key,
                    n_runs = length runs,
                    columns = dict_set cols ''total_tokens_mean'' (JNum m)\<rparr>))"

text \<open>
  \<open>aggregate(results)\<close>: the groups in the order of their keys. The keys of a dict
  differ, so \<open>sorted(grouped.items())\<close> never compares two lists of runs.
\<close>

definition aggregate :: "run_record list \<Rightarrow> py_exn + entry list" where
  "aggregate results =
     collect (map (\<lambda>(key, runs). make_entry key runs)
                (sort_key fst (group_runs results [])))"

subsection \<open>\<open>print_comparison\<close> and \<open>print_single_condition\<close>\<close>

text \<open>
  The two printers write lines of text. The model keeps the numbers of each line and
  leaves the layout aside: a line of the comparison table is a \<open>cmp_row\<close>, a line of
  the single-condition listing a \<open>single_row\<close>. An exception ends the printing.
\<close>

record cmp_row =
  row_task :: string
  row_label :: string
  row_base :: real
  row_other :: real
  row_delta :: real
  row_pct :: real

record single_row =
  single_task :: string
  single_turns :: real
  single_tokens :: real
  single_cost :: real
  single_time :: real
  single_quality :: real

text \<open>
  What \<open>print_comparison\<close> prints: the single-condition listing, or the table of the
  two conditions with one block of lines per task and the lines of averages.
\<close>

datatype listing =
    SingleListing "single_row list"
  | Comparison string string "cmp_row list list" "cmp_row list"

text \<open>\<open>r.get(f"{metric_key}_mean", 0)\<close> and \<open>v or 0\<close>.\<close>

definition mean_col :: "entry \<Rightarrow> string \<Rightarrow> json" where
  "mean_col r metric_key = dict_get (columns r) (metric_key @ ''_mean'') (JNum 0)"

definition or_zero :: "json \<Rightarrow> json" where
  "or_zero v = (if truthy v then v else JNum 0)"

text \<open>\<open>(delta / v1 * 100) if v1 != 0 else 0\<close>\<close>

definition percent :: "real \<Rightarrow> real \<Rightarrow> real" where
  "percent delta v1 = (if v1 \<noteq> 0 then delta / v1 * 100 else 0)"

text \<open>
  One line: \<open>delta = v2 - v1\<close>, the percentage, and the formatting of the four numbers.
  The subtraction raises \<open>TypeError\<close> unless both values are numbers.
\<close>

definition compare_values :: "string \<Rightarrow> string \<Rightarrow> json \<Rightarrow> json \<Rightarrow> py_exn + cmp_row" where
  "compare_values task_col label v1 v2 =
     (case (num_of v1, num_of v2) of
        (Some a, Some b) \<Rightarrow>
          Inr \<lparr>row_task = task_col, row_label = label, row_base = a, row_other = b,
               row_delta = b - a, row_pct = percent (b - a) a\<rparr>
      | _ \<Rightarrow> Inl TypeError)"

text \<open>The loop over the metrics of one task (lines 131 to 151).\<close>

fun metric_rows ::
  "entry \<Rightarrow> entry \<Rightarrow> string \<Rightarrow> bool \<Rightarrow> (string \<times> string) list \<Rightarrow> py_exn + cmp_row list" where
  "metric_rows r1 r2 task first_metric [] = Inr []"
| "metric_rows r1 r2 task first_metric ((metric_key, label) # ms) =
     (let v1 = mean_col r1 metric_key; v2 = mean_col r2 metric_key
      in if v1 = JNull \<and> v2 = JNull then metric_rows r1 r2 task first_metric ms
         else
           (case compare_values (if first_metric then task else []) label
                   (or_zero v1) (or_zero v2) of
              Inl e \<Rightarrow> Inl e
            | Inr row \<Rightarrow>
                (case metric_rows r1 r2 task False ms of
                   Inl e \<Rightarrow> Inl e
                 | Inr rows \<Rightarrow> Inr (row # rows))))"

text \<open>\<open>next((r for r in report if ...), None)\<close>\<close>

definition find_entry :: "entry list \<Rightarrow> string \<Rightarrow> string \<Rightarrow> entry option" where
  "find_entry report task c =
     List.find (\<lambda>r. entry_task_id r = task \<and> entry_condition r = c) report"

text \<open>
  The body of the loop over the tasks (lines 125 to 163): nothing for a task that
  lacks an entry under one of the two conditions, else the lines of the metrics and
  the line of the total tokens.
\<close>

definition task_block ::
  "entry list \<Rightarrow> string \<Rightarrow> string \<Rightarrow> string \<Rightarrow> py_exn + cmp_row list option" where
  "task_block report c1 c2 task =
     (case (find_entry report task c1, find_entry report task c2) of
        (Some r1, Some r2) \<Rightarrow>
          (case metric_rows r1 r2 task True METRICS of
             Inl e \<Rightarrow> Inl e
           | Inr rows \<Rightarrow>
               (case compare_values [] ''Total Tokens''
                       (dict_get (columns r1) ''total_tokens_mean'' (JNum 0))
                       (dict_get (columns r2) ''total_tokens_mean'' (JNum 0)) of
                  Inl e \<Rightarrow> Inl e
                | Inr row \<Rightarrow> Inr (Some (rows @ [row]))))
      | _ \<Rightarrow> Inr None)"

text \<open>The values of one metric's mean under one condition (lines 171 to 180).\<close>

definition mean_values :: "entry list \<Rightarrow> string \<Rightarrow> string \<Rightarrow> json list" where
  "mean_values report c metric_key =
     map (\<lambda>r. mean_col r metric_key)
       (filter (\<lambda>r. entry_condition r = c \<and>
                     dict_get (columns r) (metric_key @ ''_mean'') JNull \<noteq> JNull) report)"

text \<open>One line of averages (lines 170 to 194), none when a condition has no value.\<close>

definition average_row ::
  "entry list \<Rightarrow> string \<Rightarrow> string \<Rightarrow> string \<times> string \<Rightarrow> py_exn + cmp_row option" where
  "average_row report c1 c2 m =
     (let vals1 = mean_values report c1 (fst m); vals2 = mean_values report c2 (fst m)
      in if vals1 = [] \<or> vals2 = [] then Inr None
         else
           (case (those (map num_of vals1), those (map num_of vals2)) of
              (Some xs, Some ys) \<Rightarrow>
                (let avg1 = statistics_mean xs; avg2 = statistics_mean ys
                 in Inr (Some \<lparr>row_task = ''AVERAGE'', row_label = snd m,
                               row_base = avg1, row_other = avg2,
                               row_delta = avg2 - avg1,
                               row_pct = percent (avg2 - avg1) avg1\<rparr>))
            | _ \<Rightarrow> Inl TypeError))"

text \<open>
  The format \<open>f\<close> of a number: \<open>TypeError\<close> on \<open>None\<close>, a list or a dict,
  \<open>ValueError\<close> on a string.
\<close>

fun format_f :: "json \<Rightarrow> py_exn + real" where
  "format_f (JNum x) = Inr x"
| "format_f (JBool b) = Inr (if b then 1 else 0)"
| "format_f (JStr s) = Inl ValueError"
| "format_f _ = Inl TypeError"

text \<open>One line of \<open>print_single_condition\<close>, its five numbers taken from left to right.\<close>

definition print_single_row :: "entry \<Rightarrow> py_exn + single_row" where
  "print_single_row r =
     (case format_f (dict_get (columns r) ''num_turns_mean'' (JNum 0)) of
        Inl e \<Rightarrow> Inl e
      | Inr turns \<Rightarrow>
     (case format_f (dict_get (columns r) ''total_tokens_mean'' (JNum 0)) of
        Inl e \<Rightarrow> Inl e
      | Inr tokens \<Rightarrow>
     (case format_f (dict_get (columns r) ''total_cost_usd_mean'' (JNum 0)) of
        Inl e \<Rightarrow> Inl e
      | Inr cost \<Rightarrow>
     (case num_of (dict_get (columns r) ''duration_ms_mean'' (JNum 0)) of
        None \<Rightarrow> Inl TypeError
      | Some duration \<Rightarrow>
     (case format_f (dict_get (columns r) ''quality_score_mean'' (JNum (- 1))) of
        Inl e \<Rightarrow> Inl e
      | Inr quality \<Rightarrow>
          Inr \<lparr>single_task = entry_task_id r, single_turns = turns,
               single_tokens = tokens, single_cost = cost,
               single_time = duration / 1000, single_quality = quality\<rparr>)))))"

definition print_single_condition :: "entry list \<Rightarrow> py_exn + single_row list" where
  "print_single_condition report = collect (map print_single_row report)"

text \<open>\<open>sorted(set(r["task_id"] for r in report))\<close>, and the same for the conditions.\<close>

definition tasks_of :: "entry list \<Rightarrow> string list" where
  "tasks_of report = sort (remdups (map entry_task_id report))"

definition conditions_of :: "entry list \<Rightarrow> string list" where
  "conditions_of report = sort (remdups (map entry_condition report))"

text \<open>\<open>print_comparison(report)\<close>\<close>

definition print_comparison :: "entry list \<Rightarrow> py_exn + listing" where
  "print_comparison report =
     (let tasks = tasks_of report; conditions = conditions_of report
      in if length conditions < 2
         then (case print_single_condition report of
                 Inl e \<Rightarrow> Inl e
               | Inr rows \<Rightarrow> Inr (SingleListing rows))
         else
           (let c1 = conditions ! 0; c2 = conditions ! 1
            in case collect (map (task_block report c1 c2) tasks) of
                 Inl e \<Rightarrow> Inl e
               | Inr blocks \<Rightarrow>
                   (case collect (map (average_row report c1 c2) METRICS) of
                      Inl e \<Rightarrow> Inl e
                    | Inr avgs \<Rightarrow>
                        Inr (Comparison c1 c2 (List.map_filter id blocks)
                               (List.map_filter id avgs)))))"

section \<open>Sample inputs\<close>

text \<open>
  Concrete process outputs for the closed theorems below, and the values
  \<open>json.loads\<close> gives on them. \<open>sample_loads\<close> is \<open>json.loads\<close> restricted to these
  documents; every other string the closed theorems pass to it is no JSON document.
\<close>

definition fractional_reply :: string where
  \<open>fractional_reply = ''I would say "score": 7.5 overall''\<close>

definition fractional_stdout :: string where
  \<open>fractional_stdout =
     ''{"result": "I would say '' @ [CHR 0x5C] @ ''"score'' @ [CHR 0x5C] @
     ''": 7.5 overall", "total_cost_usd": 0.25}''\<close>

definition scored_stdout :: string where
  \<open>scored_stdout = ''{"result": "{'' @ [CHR 0x5C] @ ''"score'' @ [CHR 0x5C] @ ''": 8, '' @
     [CHR 0x5C] @ ''"reasoning'' @ [CHR 0x5C] @ ''": '' @ [CHR 0x5C] @ ''"ok'' @ [CHR 0x5C] @
     ''"}", "total_cost_usd": 0.5}''\<close>

definition sample_loads :: decoder where
  \<open>sample_loads s =
     (if s = ''{"result": "7"}'' then Some (JObj [(''result'', JStr ''7'')])
      else if s = ''7'' then Some (JNum 7)
      else if s = ''[]'' then Some (JArr [])
      else if s = fractional_stdout
      then Some (JObj [(''result'', JStr fractional_reply), (''total_cost_usd'', JNum 0.25)])
      else if s = scored_stdout
      then Some (JObj [(''result'', JStr ''{"score": 8, "reasoning": "ok"}''),
                       (''total_cost_usd'', JNum 0.5)])
      else if s = ''{"score": 8, "reasoning": "ok"}''
      then Some (JObj [(''score'', JNum 8), (''reasoning'', JStr ''ok'')])
      else None)\<close>

text \<open>A task, and records of it as the judge pass may find them on disk.\<close>

definition sample_task :: task where
  "sample_task =
     \<lparr>ident = ''T1'', prompt = ''How are failed jobs retried?'',
      rubric = ''Names the queue and the retry policy'',
      expected_answer_keywords = [''Queue'', ''Retry''], max_turns = None\<rparr>"

definition sample_tasks :: "string \<Rightarrow> task option" where
  "sample_tasks = map_of [(''T1'', sample_task)]"

definition unjudged_record :: run_record where
  "unjudged_record =
     \<lparr>task_id = ''T1'', condition = ''baseline'', run_id = 1,
      attrs = [(''result_text'', JStr ''uses a retry strategy with a QUEUE''),
               (''quality_score'', JNum (- 1))]\<rparr>"



definition sample_grader :: "nat \<Rightarrow> proc" where
  "sample_grader k = Completed 0 scored_stdout []"

definition disk :: "string \<Rightarrow> run_record \<Rightarrow> jstate" where
  "disk path r = \<lparr>files = Map.empty(path \<mapsto> r), calls = 0, total_judge_cost = 0\<rparr>"

text \<open>
  Agent outputs: one that answers with an envelope, one that prints an empty JSON list.
\<close>

definition answer_stdout :: string where
  \<open>answer_stdout = ''{"result": "uses a retry strategy with a QUEUE", "num_turns": 3, "usage": {"input_tokens": 1200, "output_tokens": 80}}''\<close>

definition agent_loads :: decoder where
  \<open>agent_loads s =
     (if s = answer_stdout
      then Some (JObj [(''result'', JStr ''uses a retry strategy with a QUEUE''),
                       (''num_turns'', JNum 3),
                       (''usage'', JObj [(''input_tokens'', JNum 1200),
                                         (''output_tokens'', JNum 80)])])
      else if s = ''[]'' then Some (JArr [])
      else None)\<close>

definition sample_agent :: "nat \<Rightarrow> proc \<times> real" where
  "sample_agent k = (if k = 0 then (TimeoutExpired, 600) else (Completed 0 answer_stdout [], 12.5))"


text \<open>A results directory for \<^verbatim>\<open>analyze.py\<close>, in the sorted order of the file names.\<close>

definition stale_listing :: "(string \<times> run_record) list" where
  "stale_listing =
     [(''T1_baseline_run1.json'',
       \<lparr>task_id = ''T1'', condition = ''baseline'', run_id = 1,
         attrs = [(''input_tokens'', JNum 100), (''cache_read_input_tokens'', JNum 20),
                  (''cache_creation_input_tokens'', JNum 3),
                  (''total_input_tokens'', JNum 999)]\<rparr>),
      (''all_results.json'',
       \<lparr>task_id = ''T1'', condition = ''baseline'', run_id = 1,
         attrs = [(''input_tokens'', JNum 100)]\<rparr>),
      (''T1_baseline_run2.json'',
       \<lparr>task_id = ''T1'', condition = ''baseline'', run_id = 2,
         attrs = [(''error'', JStr ''timeout''), (''input_tokens'', JNum 5)]\<rparr>),
      (''T1_with-gnapsis_run1.json'',
       \<lparr>task_id = ''T1'', condition = ''with-gnapsis'', run_id = 1,
         attrs = [(''input_tokens'', JNum 7)]\<rparr>)]"

text \<open>
  A record whose answer is a number, as \<^verbatim>\<open>run.py\<close> stores it when the agent's
  envelope holds a number under \<open>result\<close>; a second unjudged record; a grader whose
  first reply is the bare number 7; and a directory of two result files.
\<close>

definition numeric_answer_record :: run_record where
  "numeric_answer_record =
     \<lparr>task_id = ''T1'', condition = ''baseline'', run_id = 1,
      attrs = [(''result_text'', JNum 7)]\<rparr>"




text \<open>
  A second task, and an agent whose envelope holds \<open>null\<close> for the input tokens.
\<close>

definition second_task :: task where
  "second_task =
     \<lparr>ident = ''T2'', prompt = ''Where is the schema defined?'',
      rubric = ''Names the migration files'',
      expected_answer_keywords = [''migration''], max_turns = None\<rparr>"

definition null_tokens_stdout :: string where
  \<open>null_tokens_stdout = ''{"result": "done", "usage": {"input_tokens": null}}''\<close>

definition null_tokens_loads :: decoder where
  \<open>null_tokens_loads s =
     (if s = null_tokens_stdout
      then Some (JObj [(''result'', JStr ''done''),
                       (''usage'', JObj [(''input_tokens'', JNull)])])
      else None)\<close>

text \<open>
  The runs of one group, for the statements about \<open>aggregate\<close>: the loaded records of
  a task under a condition, in the order of loading.
\<close>

definition runs_of :: "run_record list \<Rightarrow> string \<Rightarrow> string \<Rightarrow> run_record list" where
  "runs_of results task c = filter (\<lambda>r. task_id r = task \<and> condition r = c) results"

text \<open>Three runs of one task under one condition; the judge failed on the second.\<close>

definition sentinel_runs :: "run_record list" where
  "sentinel_runs =
     [\<lparr>task_id = ''T1'', condition = ''baseline'', run_id = 1,
        attrs = [(''quality_score'', JNum 8)]\<rparr>,
      \<lparr>task_id = ''T1'', condition = ''baseline'', run_id = 2,
        attrs = [(''quality_score'', JNum (- 1))]\<rparr>,
      \<lparr>task_id = ''T1'', condition = ''baseline'', run_id = 3,
        attrs = [(''quality_score'', JNum 9)]\<rparr>]"

chapter \<open>Properties\<close>

section \<open>Keyword coverage\<close>

lemma contains_iff: "contains sub s \<longleftrightarrow> (\<exists>p q. s = p @ sub @ q)"
proof (induction s)
  case Nil
  then show ?case by auto
next
  case (Cons c cs)
  show ?case
  proof
    assume "contains sub (c # cs)"
    then consider "prefix sub (c # cs)" | "contains sub cs" by auto
    then show "\<exists>p q. c # cs = p @ sub @ q"
    proof cases
      case 1
      then obtain q where "c # cs = sub @ q" by (auto simp: prefix_def)
      then have "c # cs = [] @ sub @ q" by simp
      then show ?thesis by blast
    next
      case 2
      with Cons.IH obtain p q where "cs = p @ sub @ q" by blast
      then have "c # cs = (c # p) @ sub @ q" by simp
      then show ?thesis by blast
    qed
  next
    assume "\<exists>p q. c # cs = p @ sub @ q"
    then obtain p q where pq: "c # cs = p @ sub @ q" by blast
    show "contains sub (c # cs)"
    proof (cases p)
      case Nil
      with pq have "prefix sub (c # cs)" by (simp add: prefix_def)
      then show ?thesis by simp
    next
      case (Cons a p')
      with pq have "cs = p' @ sub @ q" by simp
      with Cons.IH have "contains sub cs" by blast
      then show ?thesis by simp
    qed
  qed
qed

lemma keyword_loop_filter:
  "keyword_loop t kws hits = hits @ filter (\<lambda>kw. contains (lower kw) t) kws"
  by (induction kws arbitrary: hits) auto

lemma count_keyword_hits_filter:
  "count_keyword_hits text kws =
     (length (filter (\<lambda>kw. contains (lower kw) (lower text)) kws),
      filter (\<lambda>kw. contains (lower kw) (lower text)) kws)"
  by (simp add: count_keyword_hits_def keyword_loop_filter Let_def)

lemma lower_Nil_iff: "lower kw = [] \<longleftrightarrow> kw = []"
  by (simp add: lower_def)

text \<open>
  C4. For every answer text and every keyword list, \<open>count_keyword_hits\<close> returns the
  keywords whose lower-cased form occurs as a contiguous block in the lower-cased text,
  in the order of the keyword list, together with their number.
\<close>

theorem keyword_coverage:
  "count_keyword_hits text kws =
     (length (filter (\<lambda>kw. \<exists>p q. lower text = p @ lower kw @ q) kws),
      filter (\<lambda>kw. \<exists>p q. lower text = p @ lower kw @ q) kws)"
  by (simp add: count_keyword_hits_filter contains_iff)

text \<open>
  The spec's example of C4: the hit list is in task order (\<open>Queue\<close> before \<open>Retry\<close>),
  although the text names them the other way round and in another case.
\<close>

lemma keyword_example_eval:
  "filter (\<lambda>kw. contains (lower kw) (lower ''uses a retry strategy with a QUEUE''))
     [''Queue'', ''Retry''] = [''Queue'', ''Retry'']"
  by code_simp

theorem keyword_coverage_witness:
  "count_keyword_hits ''uses a retry strategy with a QUEUE'' [''Queue'', ''Retry'']
     = (2, [''Queue'', ''Retry''])"
  using keyword_coverage [of "''uses a retry strategy with a QUEUE''" "[''Queue'', ''Retry'']"]
    keyword_example_eval
  by (simp add: contains_iff)

section \<open>Score extraction\<close>

lemma isdigit_not_isspace: "isdigit c \<Longrightarrow> \<not> isspace c"
  by (auto simp: isdigit_def isspace_def Let_def)

lemma colon_not_isspace: "\<not> isspace CHR '':''"
  by (simp add: isspace_def)

lemma dot_not_isdigit: "\<not> isdigit CHR ''.''"
  by (simp add: isdigit_def)

lemma match_score_at_Nil: "match_score_at [] = None"
  by (simp add: match_score_at_def)

text \<open>
  The pattern matches at the head of a string that starts with the quoted key, optional
  whitespace, a colon, optional whitespace and a maximal run of digits; group 1 is that
  run.
\<close>

lemma match_score_at_shape:
  assumes ws1: "\<forall>c \<in> set ws1. isspace c"
    and ws2: "\<forall>c \<in> set ws2. isspace c"
    and ds: "\<forall>c \<in> set ds. isdigit c" "ds \<noteq> []"
    and c: "\<not> isdigit c"
  shows "match_score_at (''\"score\"'' @ ws1 @ CHR '':'' # ws2 @ ds @ c # rest) = Some ds"
proof -
  have d1: "dropWhile isspace (ws1 @ CHR '':'' # ws2 @ ds @ c # rest)
              = CHR '':'' # ws2 @ ds @ c # rest"
    using ws1 colon_not_isspace by (simp add: dropWhile_append2)
  obtain d ds' where dsc: "ds = d # ds'" using ds(2) by (cases ds) auto
  then have "\<not> isspace d" using ds(1) isdigit_not_isspace by simp
  then have d2: "dropWhile isspace (ws2 @ ds @ c # rest) = ds @ c # rest"
    using ws2 dsc by (simp add: dropWhile_append2)
  have d3: "takeWhile isdigit (ds @ c # rest) = ds"
    using ds(1) c by (simp add: takeWhile_append2)
  show ?thesis
    using ds(2) by (simp add: match_score_at_def d1 d2 d3)
qed

text \<open>The search returns the first match from the left.\<close>

lemma search_score_skip:
  assumes "\<forall>i < length pre. match_score_at (drop i (pre @ m)) = None"
    and "match_score_at m = Some ds"
  shows "search_score (pre @ m) = Some ds"
  using assms
proof (induction pre)
  case Nil
  then obtain c cs where "m = c # cs"
    by (cases m) (auto simp: match_score_at_Nil)
  with Nil show ?case by simp
next
  case (Cons a pre)
  from Cons.prems(1) have "match_score_at (drop 0 ((a # pre) @ m)) = None" by blast
  then have h: "match_score_at (a # pre @ m) = None" by simp
  have "\<forall>i < length pre. match_score_at (drop i (pre @ m)) = None"
  proof (intro allI impI)
    fix i assume "i < length pre"
    then have "Suc i < length (a # pre)" by simp
    with Cons.prems(1) have "match_score_at (drop (Suc i) ((a # pre) @ m)) = None" by blast
    then show "match_score_at (drop i (pre @ m)) = None" by simp
  qed
  with Cons.IH Cons.prems(2) have "search_score (pre @ m) = Some ds" by blast
  with h show ?case by simp
qed

text \<open>
  C10. The grader's envelope decodes to an object whose result text \<open>t\<close> is no JSON
  document after fence stripping, and \<open>t\<close> holds, as the first place where the pattern
  matches, a score key whose value is the digits \<open>ds\<close> followed by a decimal point.
  Then \<open>judge_answer\<close> returns the number that \<open>ds\<close> denotes as the score (the
  fraction is dropped, the sentinel is not used), with the first 200 characters of \<open>t\<close>
  as the reasoning.
\<close>

theorem regex_fallback_truncates:
  assumes env: "loads out = Some (JObj r)" "\<not> (rc \<noteq> 0 \<and> strip out = [])"
    and res: "dict_get r ''result'' (JStr []) = JStr t"
    and bad: "loads (strip (strip_fences t)) = None"
    and shape: "t = pre @ ''\"score\"'' @ ws1 @ CHR '':'' # ws2 @ ds @ CHR ''.'' # rest"
    and ws: "\<forall>c \<in> set ws1. isspace c" "\<forall>c \<in> set ws2. isspace c"
    and ds: "\<forall>c \<in> set ds. isdigit c" "ds \<noteq> []"
    and first: "\<forall>i < length pre. match_score_at (drop i t) = None"
  shows "judge_answer loads (Completed rc out err) =
           Inr [(''score'', JNum (real (int_of_digits ds))),
                (''reasoning'', JStr (take 200 t)),
                (''judge_cost_usd'', dict_get r ''total_cost_usd'' (JNum 0))]"
proof -
  let ?m = "''\"score\"'' @ ws1 @ CHR '':'' # ws2 @ ds @ CHR ''.'' # rest"
  have m: "match_score_at ?m = Some ds"
    using ws ds dot_not_isdigit by (rule match_score_at_shape)
  have t: "t = pre @ ?m" using shape by simp
  have "search_score (pre @ ?m) = Some ds"
    using first m unfolding t by (rule search_score_skip)
  then have s: "search_score t = Some ds" using t by simp
  have p: "parse_score loads (JStr t) =
             Inr (JObj (score_dict (JNum (real (int_of_digits ds))) (take 200 t)))"
    by (simp add: parse_score_def bad s)
  show ?thesis
    using env res by (simp add: judge_answer_def p set_item_def dict_set_def score_dict_def)
qed

text \<open>The reply \<open>I would say "score": 7.5 overall\<close> is scored 7.\<close>

theorem regex_fallback_truncates_witness:
  "judge_answer sample_loads (Completed 0 fractional_stdout []) =
     Inr [(''score'', JNum 7),
          (''reasoning'', JStr fractional_reply),
          (''judge_cost_usd'', JNum 0.25)]"
proof -
  let ?r = "[(''result'', JStr fractional_reply), (''total_cost_usd'', JNum 0.25)]"
  have h1: "sample_loads fractional_stdout = Some (JObj ?r)"
    by code_simp
  have h2: "\<not> ((0::int) \<noteq> 0 \<and> strip fractional_stdout = [])"
    by simp
  have h3: "dict_get ?r ''result'' (JStr []) = JStr fractional_reply"
    by (simp add: dict_get_def)
  have h4: "sample_loads (strip (strip_fences fractional_reply)) = None"
    by code_simp
  have h5: "fractional_reply =
      ''I would say '' @ ''\"score\"'' @ [] @ CHR '':'' # '' '' @ ''7'' @ CHR ''.'' # ''5 overall''"
    by (simp add: fractional_reply_def)
  have h6: "\<forall>c \<in> set ([] :: string). isspace c" by simp
  have h7: "\<forall>c \<in> set '' ''. isspace c" by (simp add: isspace_def)
  have h8: "\<forall>c \<in> set ''7''. isdigit c" by (simp add: isdigit_def)
  have h9: "''7'' \<noteq> []" by simp
  have h10: "\<forall>i < length ''I would say ''. match_score_at (drop i fractional_reply) = None"
    by code_simp
  have v: "int_of_digits ''7'' = 7" by (simp add: int_of_digits_def)
  have l: "take 200 fractional_reply = fractional_reply"
    by (simp add: fractional_reply_def)
  from regex_fallback_truncates [OF h1 h2 h3 h4 h5 h6 h7 h8 h9 h10, of "[]"]
  show ?thesis by (simp add: v l dict_get_def)
qed

text \<open>
  The stages of \<open>judge_answer\<close> in the order of the code, for an envelope that decodes
  to an object with a string under \<open>result\<close> and a reply that decodes to an object or to
  nothing: timeout, process failure, undecodable envelope, decoded reply, expression
  match, no match.
\<close>

theorem judge_answer_stages:
  "judge_answer loads TimeoutExpired = Inr (score_dict (JNum (- 1)) ''Judge timed out'') \<and>
   (rc \<noteq> 0 \<and> strip out = [] \<longrightarrow>
      judge_answer loads (Completed rc out err) =
        Inr (score_dict (JNum (- 1)) (''Judge error: '' @ take 200 err))) \<and>
   (\<not> (rc \<noteq> 0 \<and> strip out = []) \<and> loads out = None \<longrightarrow>
      judge_answer loads (Completed rc out err) =
        Inr (score_dict (JNum (- 1)) ''Judge JSON parse error'')) \<and>
   (\<not> (rc \<noteq> 0 \<and> strip out = []) \<and> loads out = Some (JObj r) \<and>
    dict_get r ''result'' (JStr []) = JStr t \<longrightarrow>
      (loads (strip (strip_fences t)) = Some (JObj sd) \<longrightarrow>
         judge_answer loads (Completed rc out err) =
           Inr (dict_set sd ''judge_cost_usd'' (dict_get r ''total_cost_usd'' (JNum 0)))) \<and>
      (loads (strip (strip_fences t)) = None \<and> search_score t = Some ds \<longrightarrow>
         judge_answer loads (Completed rc out err) =
           Inr [(''score'', JNum (real (int_of_digits ds))),
                (''reasoning'', JStr (take 200 t)),
                (''judge_cost_usd'', dict_get r ''total_cost_usd'' (JNum 0))]) \<and>
      (loads (strip (strip_fences t)) = None \<and> search_score t = None \<longrightarrow>
         judge_answer loads (Completed rc out err) =
           Inr [(''score'', JNum (- 1)),
                (''reasoning'', JStr (''Failed to parse: '' @ take 200 t)),
                (''judge_cost_usd'', dict_get r ''total_cost_usd'' (JNum 0))]))"
  by (auto simp: judge_answer_def parse_score_def set_item_def dict_set_def score_dict_def)

text \<open>A reply that is a JSON object is taken as it is, with the cost of the call added.\<close>

theorem judge_answer_stages_witness:
  \<open>judge_answer sample_loads (Completed 0 scored_stdout []) =
     Inr [(''score'', JNum 8), (''reasoning'', JStr ''ok''), (''judge_cost_usd'', JNum 0.5)]\<close>
proof -
  let ?r = \<open>[(''result'', JStr ''{"score": 8, "reasoning": "ok"}''),
             (''total_cost_usd'', JNum 0.5)]\<close>
  let ?sd = "[(''score'', JNum 8), (''reasoning'', JStr ''ok'')]"
  have h1: "\<not> ((0::int) \<noteq> 0 \<and> strip scored_stdout = [])" by simp
  have h2: "sample_loads scored_stdout = Some (JObj ?r)" by code_simp
  have h3: \<open>dict_get ?r ''result'' (JStr []) = JStr ''{"score": 8, "reasoning": "ok"}''\<close>
    by (simp add: dict_get_def)
  have h4: \<open>sample_loads (strip (strip_fences ''{"score": 8, "reasoning": "ok"}'')) = Some (JObj ?sd)\<close>
    by code_simp
  from judge_answer_stages [of sample_loads 0 scored_stdout "[]" ?r _ ?sd] h1 h2 h3 h4
  have "judge_answer sample_loads (Completed 0 scored_stdout []) =
          Inr (dict_set ?sd ''judge_cost_usd'' (dict_get ?r ''total_cost_usd'' (JNum 0)))"
    by blast
  then show ?thesis by (simp add: dict_set_def dict_get_def)
qed

text \<open>
  C1, where the code leaves the pipeline. The grader answers with the bare number
  \<open>7\<close>: the envelope decodes, the reply decodes too (to a number, not to an object),
  so the expression search is not tried, and the item assignment of line 132 raises
  \<open>TypeError\<close>. No score is returned, the sentinel included.
\<close>

theorem judge_answer_bare_number_raises:
  \<open>judge_answer sample_loads (Completed 0 ''{"result": "7"}'' []) = Inl TypeError\<close>
  by code_simp

text \<open>The same holds for every reply that decodes to something other than an object.\<close>

lemma judge_answer_non_object_reply:
  assumes "\<not> (rc \<noteq> 0 \<and> strip out = [])" "loads out = Some (JObj r)"
    and "dict_get r ''result'' (JStr []) = JStr t"
    and "loads (strip (strip_fences t)) = Some v" "\<forall>d. v \<noteq> JObj d"
  shows "judge_answer loads (Completed rc out err) = Inl TypeError"
  using assms
  by (cases v) (simp_all add: judge_answer_def parse_score_def set_item_def)

lemma judge_answer_non_object_envelope:
  assumes "\<not> (rc \<noteq> 0 \<and> strip out = [])" "loads out = Some v" "\<forall>d. v \<noteq> JObj d"
  shows "judge_answer loads (Completed rc out err) = Inl AttributeError"
  using assms by (cases v) (simp_all add: judge_answer_def)

section \<open>The judge pass\<close>

lemma map_of_dict_set:
  "map_of (dict_set d k v) k' = (if k' = k then Some v else map_of d k')"
  by (simp add: dict_set_def update_conv')

lemma dict_get_dict_set:
  "dict_get (dict_set d k v) k' dflt = (if k' = k then v else dict_get d k' dflt)"
  by (simp add: dict_get_def map_of_dict_set)

lemma has_key_dict_set: "has_key (dict_set d k v) k' \<longleftrightarrow> k' = k \<or> has_key d k'"
  by (simp add: has_key_def map_of_dict_set)



text \<open>
  The keyword fields on their own: C9 asks what \<open>count_keyword_hits\<close> returns on an
  empty text.
\<close>

lemma count_keyword_hits_empty_text:
  "count_keyword_hits [] kws =
     (length (filter (\<lambda>kw. kw = []) kws), filter (\<lambda>kw. kw = []) kws)"
  by (simp add: count_keyword_hits_filter lower_Nil_iff lower_def)

lemma judge_record_skips:
  assumes "tasks (task_id data) = None \<or>
           \<not> truthy (dict_get (attrs data) ''result_text'' (JStr []))"
  shows "judge_record loads grader tasks force keywords_only (path, data) st = Inr st"
  using assms by (auto simp: judge_record_def split: option.splits)

text \<open>
  The metric on the empty text. \<open>count_keyword_hits\<close> is total on a text and a list of
  keywords and returns the keywords whose lower-case form occurs in the lower-case
  text, in the order of the list, with their number. On the empty text these are
  exactly the empty keywords, hence zero hits and no keyword when no keyword is empty.
  The judge pass does not come that far for a record whose \<open>result_text\<close> is empty or
  missing: it leaves the record as it is.
\<close>

theorem keyword_hits_empty_text:
  "count_keyword_hits text kws =
     (length (filter (\<lambda>kw. contains (lower kw) (lower text)) kws),
      filter (\<lambda>kw. contains (lower kw) (lower text)) kws) \<and>
   count_keyword_hits [] kws =
     (length (filter (\<lambda>kw. kw = []) kws), filter (\<lambda>kw. kw = []) kws) \<and>
   ([] \<notin> set kws \<longrightarrow> count_keyword_hits [] kws = (0, [])) \<and>
   (dict_get (attrs data) ''result_text'' (JStr []) = JStr [] \<longrightarrow>
      judge_record loads grader tasks force keywords_only (path, data) st = Inr st)"
proof (intro conjI impI)
  show "count_keyword_hits text kws =
     (length (filter (\<lambda>kw. contains (lower kw) (lower text)) kws),
      filter (\<lambda>kw. contains (lower kw) (lower text)) kws)"
    by (rule count_keyword_hits_filter)
  show "count_keyword_hits [] kws =
          (length (filter (\<lambda>kw. kw = []) kws), filter (\<lambda>kw. kw = []) kws)"
    by (rule count_keyword_hits_empty_text)
  show "count_keyword_hits [] kws = (0, [])" if "[] \<notin> set kws"
  proof -
    have "filter (\<lambda>kw. kw = []) kws = []"
      using that by (induction kws) auto
    then show ?thesis by (simp add: count_keyword_hits_empty_text)
  qed
  show "judge_record loads grader tasks force keywords_only (path, data) st = Inr st"
    if "dict_get (attrs data) ''result_text'' (JStr []) = JStr []"
    using that by (intro judge_record_skips) simp
qed

theorem keyword_hits_empty_text_witness:
  "count_keyword_hits [] [''Queue'', ''Retry''] = (0, []) \<and>
   judge_record sample_loads sample_grader sample_tasks True False
     (''T1_baseline_run1.json'', unjudged_record\<lparr>attrs := [(''result_text'', JStr [])]\<rparr>)
     (disk ''T1_baseline_run1.json'' unjudged_record)
   = Inr (disk ''T1_baseline_run1.json'' unjudged_record)"
proof -
  note k = keyword_hits_empty_text [of "[]" "[''Queue'', ''Retry'']"
      "unjudged_record\<lparr>attrs := [(''result_text'', JStr [])]\<rparr>"
      sample_loads sample_grader sample_tasks True False "''T1_baseline_run1.json''"
      "disk ''T1_baseline_run1.json'' unjudged_record"]
  from k have "[] \<notin> set [''Queue'', ''Retry''] \<longrightarrow>
      count_keyword_hits [] [''Queue'', ''Retry''] = (0, [])"
    by blast
  then have 1: "count_keyword_hits [] [''Queue'', ''Retry''] = (0, [])" by simp
  from k have "dict_get (attrs (unjudged_record\<lparr>attrs := [(''result_text'', JStr [])]\<rparr>))
        ''result_text'' (JStr []) = JStr [] \<longrightarrow>
      judge_record sample_loads sample_grader sample_tasks True False
        (''T1_baseline_run1.json'', unjudged_record\<lparr>attrs := [(''result_text'', JStr [])]\<rparr>)
        (disk ''T1_baseline_run1.json'' unjudged_record)
      = Inr (disk ''T1_baseline_run1.json'' unjudged_record)"
    by blast
  then have 2: "judge_record sample_loads sample_grader sample_tasks True False
        (''T1_baseline_run1.json'', unjudged_record\<lparr>attrs := [(''result_text'', JStr [])]\<rparr>)
        (disk ''T1_baseline_run1.json'' unjudged_record)
      = Inr (disk ''T1_baseline_run1.json'' unjudged_record)"
    by (simp add: dict_get_def)
  from 1 2 show ?thesis by blast
qed

text \<open>
  The empty keyword occurs in every text, the empty one included: with it in the list,
  the metric on the empty text has a hit.
\<close>

lemma keyword_hits_empty_keyword:
  "count_keyword_hits [] [[]] = (1, [[]]) \<and> count_keyword_hits [] [[]] \<noteq> (0, [])"
  by (simp add: count_keyword_hits_empty_text)

text \<open>
  C9, where the metric fails. A selected record (no \<open>error\<close> key, its task in the
  task file) whose \<open>result_text\<close> is the number 7: the answer is truthy, so the record
  is not skipped, and \<open>text.lower()\<close> in \<open>count_keyword_hits\<close> raises
  \<open>AttributeError\<close>. The metric yields nothing, and the judge pass ends there in every
  mode (forced or not, keywords only or not), with nothing written.
\<close>

theorem keyword_metric_non_string_answer_raises:
  "judge_pass loads grader sample_tasks force keywords_only
     [(''T1_baseline_run1.json'', numeric_answer_record)] st = Inl (AttributeError, st)"
  by (simp add: judge_pass_def judge_record_def sample_tasks_def numeric_answer_record_def
        dict_get_def)

text \<open>The same holds for every answer that is truthy and no string.\<close>

lemma judge_record_non_string_answer:
  assumes "tasks (task_id data) = Some t"
    and "truthy (dict_get (attrs data) ''result_text'' (JStr []))"
    and "\<forall>s. dict_get (attrs data) ''result_text'' (JStr []) \<noteq> JStr s"
  shows "judge_record loads grader tasks force keywords_only (path, data) st
           = Inl (AttributeError, st)"
  using assms
  by (cases "dict_get (attrs data) ''result_text'' (JStr [])")
     (simp_all add: judge_record_def)

subsection \<open>Skipping and forcing\<close>

lemma for_each_append:
  "for_each body (xs @ ys) s =
     (case for_each body xs s of Inl crash \<Rightarrow> Inl crash | Inr s' \<Rightarrow> for_each body ys s')"
  by (induction xs arbitrary: s) (auto split: sum.splits)



text \<open>A loop whose body hands every state back as it got it, ends in the state it began in.\<close>

lemma for_each_unchanged:
  assumes "\<forall>x \<in> set xs. body x s = Inr s \<or> (\<exists>e. body x s = Inl (e, s))"
  shows "final_state (for_each body xs s) = s"
  using assms
proof (induction xs)
  case Nil
  then show ?case by (simp add: final_state_def)
next
  case (Cons x xs)
  then consider "body x s = Inr s" | e where "body x s = Inl (e, s)" by auto
  then show ?case
  proof cases
    case 1
    with Cons show ?thesis by simp
  next
    case 2
    then show ?thesis by (simp add: final_state_def)
  qed
qed








section \<open>The run orchestrator\<close>

subsection \<open>Loops\<close>

lemma for_each_map: "for_each body (map g xs) s = for_each (\<lambda>x. body (g x)) xs s"
  by (induction xs arbitrary: s) (auto split: sum.splits)

text \<open>Two nested loops are one loop over the pairs, outer index first.\<close>

lemma for_each_nested:
  "for_each (\<lambda>x. for_each (f x) ys) xs s =
     for_each (\<lambda>(x, y). f x y) [(x, y). x \<leftarrow> xs, y \<leftarrow> ys] s"
proof (induction xs arbitrary: s)
  case Nil
  then show ?case by simp
next
  case (Cons x xs)
  have "for_each (\<lambda>(x, y). f x y) (map (Pair x) ys) s = for_each (f x) ys s"
    by (simp add: for_each_map)
  with Cons show ?case
    by (simp add: for_each_append split: sum.splits)
qed

lemma run_benchmark_loops:
  "for_each (\<lambda>rid. for_each (\<lambda>t. for_each (\<lambda>cond. cell rid t cond) conditions) tasks) rids s =
     for_each (\<lambda>(rid, t, cond). cell rid t cond)
       [(rid, t, cond). rid \<leftarrow> rids, t \<leftarrow> tasks, cond \<leftarrow> conditions] s"
proof -
  have inner: "for_each (\<lambda>t. for_each (\<lambda>cond. cell rid t cond) conditions) tasks =
      for_each (\<lambda>(t, cond). cell rid t cond) [(t, cond). t \<leftarrow> tasks, cond \<leftarrow> conditions]" for rid
    by (rule ext) (rule for_each_nested)
  have "for_each (\<lambda>rid. for_each (\<lambda>(t, cond). cell rid t cond)
            [(t, cond). t \<leftarrow> tasks, cond \<leftarrow> conditions]) rids s =
        for_each (\<lambda>(rid, tc). (\<lambda>(t, cond). cell rid t cond) tc)
          [(rid, tc). rid \<leftarrow> rids, tc \<leftarrow> [(t, cond). t \<leftarrow> tasks, cond \<leftarrow> conditions]] s"
    by (rule for_each_nested)
  moreover have "[(rid, tc). rid \<leftarrow> rids, tc \<leftarrow> [(t, cond). t \<leftarrow> tasks, cond \<leftarrow> conditions]] =
      [(rid, t, cond). rid \<leftarrow> rids, t \<leftarrow> tasks, cond \<leftarrow> conditions]"
    by (induction rids) (simp_all add: map_concat comp_def)
  moreover have "(\<lambda>(rid, tc). (\<lambda>(t, cond). cell rid t cond) tc) = (\<lambda>(rid, t, cond). cell rid t cond)"
    by (simp add: fun_eq_iff)
  ultimately show ?thesis by (simp add: inner)
qed

subsection \<open>One cell\<close>

lemma run_task_not_dry:
  "run_task loads p wall t cond rid model False \<noteq> Inr None"
  by (simp add: run_task_def split: option.splits proc.splits json.splits)

lemma run_task_known_condition:
  assumes "run_task loads p wall t cond rid model dry_run = Inr x"
  shows "cond \<in> fst ` set CONDITIONS"
proof (cases "map_of CONDITIONS cond")
  case None
  with assms show ?thesis by (simp add: run_task_def)
next
  case (Some c)
  then have "(cond, c) \<in> set CONDITIONS" by (rule map_of_SomeD)
  then show ?thesis by force
qed

lemma run_task_identity:
  assumes "run_task loads p wall t cond rid model dry_run = Inr (Some r)"
  shows "task_id r = ident t" "condition r = cond" "run_id r = rid"
  using assms
  by (auto simp: run_task_def failure_def
        split: option.splits proc.splits json.splits if_splits)

subsection \<open>File names\<close>

lemma str_nat_digits: "\<forall>c \<in> set (str_nat n). isdigit c"
proof (induction n rule: str_nat.induct)
  case (1 n)
  show ?case
  proof (cases "n < 10")
    case True
    then show ?thesis
      by (subst str_nat.simps) (simp add: isdigit_def)
  next
    case False
    have "n mod 10 < 10" by simp
    then have "isdigit (char_of (48 + n mod 10))"
      by (simp add: isdigit_def)
    with False 1 show ?thesis
      by (subst str_nat.simps) simp
  qed
qed

lemma str_nat_not_Nil: "str_nat n \<noteq> []"
  by (subst str_nat.simps) simp

lemma int_of_digits_snoc:
  "int_of_digits (ds @ [c]) = 10 * int_of_digits ds + (of_char c - 48)"
  by (simp add: int_of_digits_def)

text \<open>\<open>int(str(n)) == n\<close>, so \<open>str\<close> is one-to-one.\<close>

lemma int_of_digits_str_nat: "int_of_digits (str_nat n) = n"
proof (induction n rule: str_nat.induct)
  case (1 n)
  show ?case
  proof (cases "n < 10")
    case True
    then show ?thesis
      by (subst str_nat.simps) (simp add: int_of_digits_def)
  next
    case False
    have "n mod 10 < 10" by simp
    then have "(of_char (char_of (48 + n mod 10)) :: nat) - 48 = n mod 10"
      by simp
    with False 1 show ?thesis
      by (subst str_nat.simps) (simp add: int_of_digits_snoc)
  qed
qed

lemma str_nat_inj: "str_nat m = str_nat n \<Longrightarrow> m = n"
  by (metis int_of_digits_str_nat)

text \<open>A string that ends in a run of digits splits into stem and digits in one way only.\<close>

lemma digits_suffix_unique:
  assumes eq: "a1 @ d1 = a2 @ d2"
    and d: "\<forall>c \<in> set d1. isdigit c" "\<forall>c \<in> set d2. isdigit c"
    and a: "a1 \<noteq> []" "\<not> isdigit (last a1)" "a2 \<noteq> []" "\<not> isdigit (last a2)"
  shows "a1 = a2 \<and> d1 = d2"
proof -
  from eq obtain us where
    "(a1 = a2 @ us \<and> us @ d1 = d2) \<or> (a1 @ us = a2 \<and> d1 = us @ d2)"
    by (auto simp: append_eq_append_conv2)
  then show ?thesis
  proof
    assume h: "a1 = a2 @ us \<and> us @ d1 = d2"
    have "us = []"
    proof (rule ccontr)
      assume "us \<noteq> []"
      with h have "last a1 = last us" "last us \<in> set d2" by auto
      with d(2) a(2) show False by auto
    qed
    with h show ?thesis by simp
  next
    assume h: "a1 @ us = a2 \<and> d1 = us @ d2"
    have "us = []"
    proof (rule ccontr)
      assume "us \<noteq> []"
      with h have "last a2 = last us" "last us \<in> set d1" by auto
      with d(1) a(4) show False by auto
    qed
    with h show ?thesis by simp
  qed
qed

lemma n_not_isdigit: "\<not> isdigit CHR ''n''" "\<not> isdigit CHR ''s''"
  by (simp_all add: isdigit_def)

text \<open>
  Two records of known conditions that are written to the same file have the same
  identity: the file name is a key.
\<close>

lemma result_path_inj:
  assumes c: "condition r1 \<in> fst ` set CONDITIONS" "condition r2 \<in> fst ` set CONDITIONS"
    and eq: "result_path r1 = result_path r2"
  shows "task_id r1 = task_id r2 \<and> condition r1 = condition r2 \<and> run_id r1 = run_id r2"
proof -
  let ?a1 = "task_id r1 @ ''_'' @ condition r1 @ ''_run''"
  let ?a2 = "task_id r2 @ ''_'' @ condition r2 @ ''_run''"
  from eq have "(?a1 @ str_nat (run_id r1)) @ ''.json'' = (?a2 @ str_nat (run_id r2)) @ ''.json''"
    by (simp add: result_path_def)
  then have "?a1 @ str_nat (run_id r1) = ?a2 @ str_nat (run_id r2)"
    by (simp only: append_same_eq)
  moreover have "?a1 \<noteq> []" "?a2 \<noteq> []" "\<not> isdigit (last ?a1)" "\<not> isdigit (last ?a2)"
    by (simp_all add: n_not_isdigit)
  ultimately have s: "?a1 = ?a2" and d: "str_nat (run_id r1) = str_nat (run_id r2)"
    using digits_suffix_unique [of ?a1 "str_nat (run_id r1)" ?a2 "str_nat (run_id r2)"]
      str_nat_digits by blast+
  from d have n: "run_id r1 = run_id r2" by (rule str_nat_inj)
  from s have "(task_id r1 @ ''_'' @ condition r1) @ ''_run'' = (task_id r2 @ ''_'' @ condition r2) @ ''_run''"
    by simp
  then have tc: "task_id r1 @ ''_'' @ condition r1 = task_id r2 @ ''_'' @ condition r2"
    by (simp only: append_same_eq)
  from c have cs: "condition r1 = ''baseline'' \<or> condition r1 = ''with-gnapsis''"
    "condition r2 = ''baseline'' \<or> condition r2 = ''with-gnapsis''"
    by (auto simp: CONDITIONS_def)
  have ce: "condition r1 = condition r2"
  proof (rule ccontr)
    assume ne: "condition r1 \<noteq> condition r2"
    from tc have "last (task_id r1 @ ''_'' @ condition r1) = last (task_id r2 @ ''_'' @ condition r2)"
      by simp
    with cs ne show False by auto
  qed
  with tc have "task_id r1 @ ''_'' = task_id r2 @ ''_''"
    by (metis append_assoc append_same_eq)
  then have "task_id r1 = task_id r2" by simp
  with ce n show ?thesis by simp
qed

lemma result_path_not_combined: "result_path r \<noteq> ''all_results.json''"
proof
  assume "result_path r = ''all_results.json''"
  then have "((task_id r @ ''_'' @ condition r @ ''_run'') @ str_nat (run_id r)) @ ''.json''
      = ''all_results'' @ ''.json''"
    by (simp add: result_path_def)
  then have e: "(task_id r @ ''_'' @ condition r @ ''_run'') @ str_nat (run_id r) = ''all_results''"
    by (simp only: append_same_eq)
  have "last ((task_id r @ ''_'' @ condition r @ ''_run'') @ str_nat (run_id r))
      = last (str_nat (run_id r))"
    using str_nat_not_Nil by (simp only: last_append if_False)
  moreover have "last (str_nat (run_id r)) \<in> set (str_nat (run_id r))"
    using str_nat_not_Nil by simp
  ultimately have "isdigit (last ((task_id r @ ''_'' @ condition r @ ''_run'') @ str_nat (run_id r)))"
    using str_nat_digits by metis
  with e have "isdigit (last ''all_results'')" by simp
  then show False by (simp add: n_not_isdigit)
qed
subsection \<open>The batch\<close>

lemma run_cell_Inr:
  assumes "run_cell loads agent model False rid t cond st = Inr st'"
  shows "\<exists>r. run_task loads (fst (agent (completed st))) (snd (agent (completed st)))
                t cond rid model False = Inr (Some r) \<and>
             st' = st\<lparr>completed := completed st + 1,
                      all_results := all_results st @ [r],
                      written := (written st)(result_path r \<mapsto> OneResult r),
                      history := history st @ cell_events r\<rparr>"
proof -
  let ?res = "run_task loads (fst (agent (completed st))) (snd (agent (completed st)))
                t cond rid model False"
  from assms obtain r where r: "?res = Inr (Some r)"
    using run_task_not_dry [of loads "fst (agent (completed st))" "snd (agent (completed st))"
        t cond rid model]
    by (auto simp: run_cell_def Let_def split: sum.splits option.splits)
  have id: "task_id r = ident t" "condition r = cond" "run_id r = rid"
    using run_task_identity [OF r] by simp_all
  from assms r have "st' = save_result r
      (st\<lparr>completed := completed st + 1,
          history := history st @ [Started rid (ident t) cond],
          all_results := all_results st @ [r]\<rparr>)"
    by (auto simp: run_cell_def Let_def split: sum.splits)
  then have "st' = st\<lparr>completed := completed st + 1,
                      all_results := all_results st @ [r],
                      written := (written st)(result_path r \<mapsto> OneResult r),
                      history := history st @ cell_events r\<rparr>"
    by (simp add: save_result_def cell_events_def id)
  with r show ?thesis by blast
qed

text \<open>
  A run through a list of cells that does not raise: one record per cell, in the order
  of the cells, each saved right after its cell began and before the next one begins.
\<close>

lemma run_cells_Inr:
  assumes "for_each (\<lambda>(rid, t, cond). run_cell loads agent model False rid t cond) cells st
             = Inr st'"
  shows "\<exists>rs. length rs = length cells \<and>
      (\<forall>k < length cells.
          run_task loads (fst (agent (completed st + k))) (snd (agent (completed st + k)))
            (fst (snd (cells ! k))) (snd (snd (cells ! k))) (fst (cells ! k)) model False
          = Inr (Some (rs ! k))) \<and>
      all_results st' = all_results st @ rs \<and>
      history st' = history st @ concat (map cell_events rs) \<and>
      written st' = foldl (\<lambda>w r. w(result_path r \<mapsto> OneResult r)) (written st) rs \<and>
      completed st' = completed st + length cells"
  using assms
proof (induction cells arbitrary: st)
  case Nil
  then show ?case by simp
next
  case (Cons cell cells)
  obtain rid t cond where cell: "cell = (rid, t, cond)" by (cases cell) auto
  from Cons.prems cell obtain st1 where
    s1: "run_cell loads agent model False rid t cond st = Inr st1" and
    s2: "for_each (\<lambda>(rid, t, cond). run_cell loads agent model False rid t cond) cells st1
           = Inr st'"
    by (auto split: sum.splits)
  from run_cell_Inr [OF s1] obtain r where
    r: "run_task loads (fst (agent (completed st))) (snd (agent (completed st)))
          t cond rid model False = Inr (Some r)" and
    st1: "st1 = st\<lparr>completed := completed st + 1,
                     all_results := all_results st @ [r],
                     written := (written st)(result_path r \<mapsto> OneResult r),
                     history := history st @ cell_events r\<rparr>"
    by blast
  from Cons.IH [OF s2] obtain rs where
    len: "length rs = length cells" and
    nth: "\<forall>k < length cells.
          run_task loads (fst (agent (completed st1 + k))) (snd (agent (completed st1 + k)))
            (fst (snd (cells ! k))) (snd (snd (cells ! k))) (fst (cells ! k)) model False
          = Inr (Some (rs ! k))" and
    res: "all_results st' = all_results st1 @ rs" and
    his: "history st' = history st1 @ concat (map cell_events rs)" and
    wri: "written st' = foldl (\<lambda>w r. w(result_path r \<mapsto> OneResult r)) (written st1) rs" and
    com: "completed st' = completed st1 + length cells"
    by blast
  have c1: "completed st1 = completed st + 1" using st1 by simp
  have "\<forall>k < length (cell # cells).
          run_task loads (fst (agent (completed st + k))) (snd (agent (completed st + k)))
            (fst (snd ((cell # cells) ! k))) (snd (snd ((cell # cells) ! k)))
            (fst ((cell # cells) ! k)) model False
          = Inr (Some ((r # rs) ! k))"
  proof (intro allI impI)
    fix k assume k: "k < length (cell # cells)"
    show "run_task loads (fst (agent (completed st + k))) (snd (agent (completed st + k)))
            (fst (snd ((cell # cells) ! k))) (snd (snd ((cell # cells) ! k)))
            (fst ((cell # cells) ! k)) model False
          = Inr (Some ((r # rs) ! k))"
    proof (cases k)
      case 0
      with r cell show ?thesis by simp
    next
      case (Suc j)
      with k have "j < length cells" by simp
      with nth have "run_task loads (fst (agent (completed st1 + j)))
            (snd (agent (completed st1 + j)))
            (fst (snd (cells ! j))) (snd (snd (cells ! j))) (fst (cells ! j)) model False
          = Inr (Some (rs ! j))" by blast
      with Suc c1 show ?thesis by simp
    qed
  qed
  moreover have "length (r # rs) = length (cell # cells)" using len by simp
  moreover have "all_results st' = all_results st @ (r # rs)" using res st1 by simp
  moreover have "history st' = history st @ concat (map cell_events (r # rs))"
    using his st1 by simp
  moreover have "written st' =
      foldl (\<lambda>w r. w(result_path r \<mapsto> OneResult r)) (written st) (r # rs)"
    using wri st1 by simp
  moreover have "completed st' = completed st + length (cell # cells)"
    using com c1 by simp
  ultimately show ?case by blast
qed

text \<open>Writing records under pairwise different names leaves each of them on disk.\<close>

lemma foldl_written:
  assumes "distinct (map result_path rs)" "r \<in> set rs"
  shows "foldl (\<lambda>w r. w(result_path r \<mapsto> OneResult r)) w rs (result_path r)
           = Some (OneResult r)"
  using assms
proof (induction rs arbitrary: w rule: rev_induct)
  case Nil
  then show ?case by simp
next
  case (snoc x xs)
  show ?case
  proof (cases "r = x")
    case True
    then show ?thesis by simp
  next
    case False
    with snoc.prems have "r \<in> set xs" "result_path x \<noteq> result_path r" by auto
    with snoc show ?thesis by simp
  qed
qed

lemma cell_order_keys:
  "map (\<lambda>(rid, t, cond). (rid, ident t, cond)) (cell_order n tasks conds) =
     List.product [1 ..< n + 1] (List.product (map ident tasks) conds)"
proof -
  have inner: "map (\<lambda>(rid, t, cond). (rid, ident t, cond))
        (concat (map (\<lambda>t. map (\<lambda>cond. (rid, t, cond)) conds) ts))
      = map (Pair rid) (List.product (map ident ts) conds)" for rid ts
    by (induction ts) (simp_all add: comp_def)
  have outer: "map (\<lambda>(rid, t, cond). (rid, ident t, cond))
          (concat (map (\<lambda>rid. concat (map (\<lambda>t. map (\<lambda>cond. (rid, t, cond)) conds) tasks)) rids))
      = List.product rids (List.product (map ident tasks) conds)" for rids
    by (induction rids) (simp_all add: inner)
  show ?thesis unfolding cell_order_def by (rule outer)
qed

text \<open>
  A batch that is no dry run and returns has gone through every cell of the matrix
  once, repetition outermost, then task, then condition: its records carry the
  identities of the cells in that order, the \<open>k\<close>-th record is what \<open>run_task\<close>
  returned for the \<open>k\<close>-th cell, and the history is, cell after cell, the begin of the
  cell followed at once by the write of its record, with the combined file last. When
  the task ids and the conditions are pairwise different, every record is on disk under
  its own file name at the end.
\<close>

theorem orchestrator_order:
  assumes "run_benchmark loads agent tasks n conds model False = Inr st'"
  shows "map (\<lambda>r. (run_id r, task_id r, condition r)) (all_results st') =
           map (\<lambda>(rid, t, cond). (rid, ident t, cond)) (cell_order n tasks conds) \<and>
         (\<forall>k < length (cell_order n tasks conds).
            run_task loads (fst (agent k)) (snd (agent k))
              (fst (snd (cell_order n tasks conds ! k))) (snd (snd (cell_order n tasks conds ! k)))
              (fst (cell_order n tasks conds ! k)) model False
            = Inr (Some (all_results st' ! k))) \<and>
         history st' = concat (map cell_events (all_results st')) @
           (if all_results st' = [] then [] else [SavedAll (all_results st')]) \<and>
         (distinct (map ident tasks) \<and> distinct conds \<longrightarrow>
            (\<forall>r \<in> set (all_results st'). written st' (result_path r) = Some (OneResult r)))"
proof -
  let ?cells = "cell_order n tasks conds"
  let ?body = "\<lambda>(rid, t, cond). run_cell loads agent model False rid t cond"
  have flat: "for_each (\<lambda>rid. for_each (\<lambda>t. for_each
        (\<lambda>cond. run_cell loads agent model False rid t cond) conds) tasks) [1 ..< n + 1] start_state
      = for_each ?body ?cells start_state"
    unfolding cell_order_def by (rule run_benchmark_loops)
  from assms obtain st0 where
    st0: "for_each ?body ?cells start_state = Inr st0" and
    fin: "st' = (if all_results st0 \<noteq> []
                 then st0\<lparr>written := (written st0)(''all_results.json'' \<mapsto> AllResults (all_results st0)),
                         history := history st0 @ [SavedAll (all_results st0)]\<rparr>
                 else st0)"
    unfolding run_benchmark_def flat by (auto split: sum.splits if_splits)
  from run_cells_Inr [OF st0] obtain rs where
    len: "length rs = length ?cells" and
    nth: "\<forall>k < length ?cells.
          run_task loads (fst (agent (completed start_state + k)))
            (snd (agent (completed start_state + k)))
            (fst (snd (?cells ! k))) (snd (snd (?cells ! k))) (fst (?cells ! k)) model False
          = Inr (Some (rs ! k))" and
    res: "all_results st0 = all_results start_state @ rs" and
    his: "history st0 = history start_state @ concat (map cell_events rs)" and
    wri: "written st0 = foldl (\<lambda>w r. w(result_path r \<mapsto> OneResult r)) (written start_state) rs"
    by blast
  have res0: "all_results st0 = rs" using res by (simp add: start_state_def)
  have res': "all_results st' = rs" using fin res0 by simp
  have nth': "\<forall>k < length ?cells.
          run_task loads (fst (agent k)) (snd (agent k))
            (fst (snd (?cells ! k))) (snd (snd (?cells ! k))) (fst (?cells ! k)) model False
          = Inr (Some (rs ! k))"
    using nth by (simp add: start_state_def)
  have keys: "map (\<lambda>r. (run_id r, task_id r, condition r)) rs =
      map (\<lambda>(rid, t, cond). (rid, ident t, cond)) ?cells"
  proof (rule nth_equalityI)
    show "length (map (\<lambda>r. (run_id r, task_id r, condition r)) rs) =
        length (map (\<lambda>(rid, t, cond). (rid, ident t, cond)) ?cells)"
      using len by simp
  next
    fix k assume "k < length (map (\<lambda>r. (run_id r, task_id r, condition r)) rs)"
    then have k: "k < length ?cells" using len by simp
    with nth' have "run_task loads (fst (agent k)) (snd (agent k))
            (fst (snd (?cells ! k))) (snd (snd (?cells ! k))) (fst (?cells ! k)) model False
          = Inr (Some (rs ! k))" by blast
    from run_task_identity [OF this] k len
    show "map (\<lambda>r. (run_id r, task_id r, condition r)) rs ! k =
        map (\<lambda>(rid, t, cond). (rid, ident t, cond)) ?cells ! k"
      by (simp add: case_prod_beta)
  qed
  have hist: "history st' = concat (map cell_events rs) @ (if rs = [] then [] else [SavedAll rs])"
    using fin his res0 by (simp add: start_state_def)
  have disk: "\<forall>r \<in> set rs. written st' (result_path r) = Some (OneResult r)"
    if d: "distinct (map ident tasks) \<and> distinct conds"
  proof
    fix r assume r: "r \<in> set rs"
    have known: "condition x \<in> fst ` set CONDITIONS" if "x \<in> set rs" for x
    proof -
      from that obtain k where k: "k < length rs" "x = rs ! k"
        by (auto simp: in_set_conv_nth)
      with len nth' have e: "run_task loads (fst (agent k)) (snd (agent k))
            (fst (snd (?cells ! k))) (snd (snd (?cells ! k))) (fst (?cells ! k)) model False
          = Inr (Some x)" by simp
      from run_task_known_condition [OF e] run_task_identity(2) [OF e]
      show ?thesis by simp
    qed
    have "distinct (List.product [1 ..< n + 1] (List.product (map ident tasks) conds))"
      using d by (intro distinct_product) simp_all
    then have dk: "distinct (map (\<lambda>r. (run_id r, task_id r, condition r)) rs)"
      using keys cell_order_keys [of n tasks conds] by simp
    have "inj_on result_path (set rs)"
    proof (rule inj_onI)
      fix x y assume xy: "x \<in> set rs" "y \<in> set rs" "result_path x = result_path y"
      with known result_path_inj [of x y]
      have "(run_id x, task_id x, condition x) = (run_id y, task_id y, condition y)"
        by simp
      with dk xy(1,2) show "x = y"
        by (meson distinct_map inj_onD)
    qed
    moreover have "distinct rs" using dk by (simp add: distinct_map)
    ultimately have "distinct (map result_path rs)"
      by (simp add: distinct_map)
    from foldl_written [OF this r] wri
    have "written st0 (result_path r) = Some (OneResult r)" by simp
    with fin result_path_not_combined [of r] show "written st' (result_path r) = Some (OneResult r)"
      by (auto simp: fun_upd_def)
  qed
  from keys nth' hist disk show ?thesis unfolding res' by blast
qed
lemma sample_batch_returns:
  "\<exists>st'. run_benchmark agent_loads sample_agent [sample_task] 2
           [''baseline'', ''with-gnapsis''] ''sonnet'' False = Inr st'"
proof -
  have "case run_benchmark agent_loads sample_agent [sample_task] 2
           [''baseline'', ''with-gnapsis''] ''sonnet'' False of
          Inl crash \<Rightarrow> False | Inr st' \<Rightarrow> True"
    by code_simp
  then show ?thesis by (auto split: sum.splits)
qed

lemma sample_cell_order:
  "map (\<lambda>(rid, t, cond). (rid, ident t, cond))
       (cell_order 2 [sample_task] [''baseline'', ''with-gnapsis'']) =
     [(1, ''T1'', ''baseline''), (1, ''T1'', ''with-gnapsis''),
      (2, ''T1'', ''baseline''), (2, ''T1'', ''with-gnapsis'')]"
  by code_simp

text \<open>
  One task, two conditions, two repetitions, the first cell timing out: four records in
  matrix order, all four on disk.
\<close>

theorem orchestrator_order_witness:
  "\<exists>st'. run_benchmark agent_loads sample_agent [sample_task] 2
           [''baseline'', ''with-gnapsis''] ''sonnet'' False = Inr st' \<and>
         map (\<lambda>r. (run_id r, task_id r, condition r)) (all_results st') =
           [(1, ''T1'', ''baseline''), (1, ''T1'', ''with-gnapsis''),
            (2, ''T1'', ''baseline''), (2, ''T1'', ''with-gnapsis'')] \<and>
         list_all (\<lambda>r. written st' (result_path r) = Some (OneResult r)) (all_results st')"
proof -
  from sample_batch_returns obtain st' where
    st': "run_benchmark agent_loads sample_agent [sample_task] 2
            [''baseline'', ''with-gnapsis''] ''sonnet'' False = Inr st'"
    by blast
  have d: "distinct (map ident [sample_task]) \<and> distinct [''baseline'', ''with-gnapsis'']"
    by simp
  from orchestrator_order [OF st'] d sample_cell_order
  have "map (\<lambda>r. (run_id r, task_id r, condition r)) (all_results st') =
           [(1, ''T1'', ''baseline''), (1, ''T1'', ''with-gnapsis''),
            (2, ''T1'', ''baseline''), (2, ''T1'', ''with-gnapsis'')]"
    and "\<forall>r \<in> set (all_results st'). written st' (result_path r) = Some (OneResult r)"
    by simp_all
  with st' show ?thesis by (auto simp: list_all_iff)
qed

subsection \<open>What one cell returns\<close>

text \<open>
  The outcomes of \<open>run_task\<close> for a known condition outside a dry run, in the order of
  the code: timeout, failed process without output, undecodable output, and an envelope
  that decodes to an object whose \<open>usage\<close> is an object or missing. In the last case
  every usage, cost and timing field the envelope lacks is 0 in the record.
\<close>

theorem run_task_outcomes:
  "cond \<in> fst ` set CONDITIONS \<longrightarrow>
     run_task loads TimeoutExpired wall t cond rid model False =
       Inr (Some (failure t cond rid ''timeout'')) \<and>
     (rc \<noteq> 0 \<and> strip out = [] \<longrightarrow>
        run_task loads (Completed rc out err) wall t cond rid model False =
          Inr (Some (failure t cond rid (take 500 err)))) \<and>
     (\<not> (rc \<noteq> 0 \<and> strip out = []) \<and> loads out = None \<longrightarrow>
        run_task loads (Completed rc out err) wall t cond rid model False =
          Inr (Some (failure t cond rid (''JSON parse error: '' @ take 200 out)))) \<and>
     (\<not> (rc \<noteq> 0 \<and> strip out = []) \<and> loads out = Some (JObj r) \<and>
      dict_get r ''usage'' (JObj []) = JObj usage \<longrightarrow>
        (\<exists>res. run_task loads (Completed rc out err) wall t cond rid model False = Inr (Some res) \<and>
           task_id res = ident t \<and> condition res = cond \<and> run_id res = rid \<and>
           \<not> has_key (attrs res) ''error'' \<and>
           (\<forall>k \<in> {''num_turns'', ''duration_ms'', ''duration_api_ms'', ''total_cost_usd''}.
              dict_get (attrs res) k JNull = dict_get r k (JNum 0)) \<and>
           (\<forall>k \<in> {''input_tokens'', ''output_tokens'', ''cache_read_input_tokens'',
                   ''cache_creation_input_tokens''}.
              dict_get (attrs res) k JNull = dict_get usage k (JNum 0))))"
proof
  assume "cond \<in> fst ` set CONDITIONS"
  then obtain c where c: "map_of CONDITIONS cond = Some c"
    by (cases "map_of CONDITIONS cond") (auto simp: map_of_eq_None_iff)
  show "run_task loads TimeoutExpired wall t cond rid model False =
       Inr (Some (failure t cond rid ''timeout'')) \<and>
     (rc \<noteq> 0 \<and> strip out = [] \<longrightarrow>
        run_task loads (Completed rc out err) wall t cond rid model False =
          Inr (Some (failure t cond rid (take 500 err)))) \<and>
     (\<not> (rc \<noteq> 0 \<and> strip out = []) \<and> loads out = None \<longrightarrow>
        run_task loads (Completed rc out err) wall t cond rid model False =
          Inr (Some (failure t cond rid (''JSON parse error: '' @ take 200 out)))) \<and>
     (\<not> (rc \<noteq> 0 \<and> strip out = []) \<and> loads out = Some (JObj r) \<and>
      dict_get r ''usage'' (JObj []) = JObj usage \<longrightarrow>
        (\<exists>res. run_task loads (Completed rc out err) wall t cond rid model False = Inr (Some res) \<and>
           task_id res = ident t \<and> condition res = cond \<and> run_id res = rid \<and>
           \<not> has_key (attrs res) ''error'' \<and>
           (\<forall>k \<in> {''num_turns'', ''duration_ms'', ''duration_api_ms'', ''total_cost_usd''}.
              dict_get (attrs res) k JNull = dict_get r k (JNum 0)) \<and>
           (\<forall>k \<in> {''input_tokens'', ''output_tokens'', ''cache_read_input_tokens'',
                   ''cache_creation_input_tokens''}.
              dict_get (attrs res) k JNull = dict_get usage k (JNum 0))))"
    using c by (auto simp: run_task_def has_key_def dict_get_def)
qed

text \<open>
  An envelope without cost and cache counts: these fields are 0 in the record, the
  fields it has are kept.
\<close>

theorem run_task_outcomes_witness:
  "\<exists>res. run_task agent_loads (Completed 0 answer_stdout []) 12.5 sample_task
           ''baseline'' 1 ''sonnet'' False = Inr (Some res) \<and>
         dict_get (attrs res) ''total_cost_usd'' JNull = JNum 0 \<and>
         dict_get (attrs res) ''cache_read_input_tokens'' JNull = JNum 0 \<and>
         dict_get (attrs res) ''input_tokens'' JNull = JNum 1200 \<and>
         dict_get (attrs res) ''num_turns'' JNull = JNum 3"
proof -
  let ?usage = "[(''input_tokens'', JNum 1200), (''output_tokens'', JNum 80)]"
  let ?r = "[(''result'', JStr ''uses a retry strategy with a QUEUE''),
             (''num_turns'', JNum 3), (''usage'', JObj ?usage)]"
  have h0: "''baseline'' \<in> fst ` set CONDITIONS" by (simp add: CONDITIONS_def)
  have h1: "\<not> ((0::int) \<noteq> 0 \<and> strip answer_stdout = [])" by simp
  have h2: "agent_loads answer_stdout = Some (JObj ?r)" by (simp add: agent_loads_def)
  have h3: "dict_get ?r ''usage'' (JObj []) = JObj ?usage" by (simp add: dict_get_def)
  from run_task_outcomes [of "''baseline''" agent_loads "12.5" sample_task 1 "''sonnet''"
      0 answer_stdout "[]" ?r ?usage] h0 h1 h2 h3
  obtain res where
    "run_task agent_loads (Completed 0 answer_stdout []) 12.5 sample_task
           ''baseline'' 1 ''sonnet'' False = Inr (Some res)"
    "\<forall>k \<in> {''num_turns'', ''duration_ms'', ''duration_api_ms'', ''total_cost_usd''}.
        dict_get (attrs res) k JNull = dict_get ?r k (JNum 0)"
    "\<forall>k \<in> {''input_tokens'', ''output_tokens'', ''cache_read_input_tokens'',
            ''cache_creation_input_tokens''}.
        dict_get (attrs res) k JNull = dict_get ?usage k (JNum 0)"
    by blast
  then show ?thesis by (auto simp: dict_get_def)
qed

text \<open>
  C3, where a cell raises. The agent process exits with code 0 and prints an empty JSON
  list: the output decodes, so no parse error is recorded, and \<open>response.get\<close> raises
  \<open>AttributeError\<close> out of \<open>run_task\<close>. No record is returned, and the batch ends
  there.
\<close>

theorem run_task_list_output_raises:
  "run_task agent_loads (Completed 0 ''[]'' []) 12.5 sample_task ''baseline'' 1 ''sonnet'' False
     = Inl AttributeError"
  by code_simp

lemma run_task_non_object_envelope:
  assumes "cond \<in> fst ` set CONDITIONS" "\<not> (rc \<noteq> 0 \<and> strip out = [])"
    and "loads out = Some v" "\<forall>d. v \<noteq> JObj d"
  shows "run_task loads (Completed rc out err) wall t cond rid model False = Inl AttributeError"
proof -
  from assms(1) obtain c where "map_of CONDITIONS cond = Some c"
    by (cases "map_of CONDITIONS cond") (auto simp: map_of_eq_None_iff)
  with assms(2-) show ?thesis
    by (cases v) (simp_all add: run_task_def)
qed

text \<open>The exception leaves the batch too: the cells after it are not run.\<close>

lemma run_benchmark_raises:
  "\<exists>st. run_benchmark agent_loads (\<lambda>k. (Completed 0 ''[]'' [], 12.5)) [sample_task] 1
          [''baseline'', ''with-gnapsis''] ''sonnet'' False = Inl (AttributeError, st) \<and>
        completed st = 1 \<and> all_results st = []"
proof -
  have "case run_benchmark agent_loads (\<lambda>k. (Completed 0 ''[]'' [], 12.5)) [sample_task] 1
          [''baseline'', ''with-gnapsis''] ''sonnet'' False of
          Inl (e, st) \<Rightarrow> e = AttributeError \<and> completed st = 1 \<and> all_results st = []
        | Inr st \<Rightarrow> False"
    by code_simp
  then show ?thesis by (auto split: sum.splits)
qed


subsection \<open>Where the batch stops\<close>

text \<open>
  C6, where the batch stops. Two tasks under two conditions, one repetition: four
  cells. The agent's envelope for the first cell holds \<open>null\<close> for the input tokens.
  \<open>run_task\<close> returns a success record for it (\<open>usage.get("input_tokens", 0)\<close> is
  \<open>None\<close>, the key being there), the record is saved under its key, and the token sum
  of the progress line (line 187) raises \<open>TypeError\<close>. The batch ends there: one cell
  of the four was begun, the other three never are, and the combined file is not
  written.
\<close>

theorem orchestrator_stops_on_null_tokens:
  "\<exists>st r. run_benchmark null_tokens_loads (\<lambda>k. (Completed 0 null_tokens_stdout [], 12.5))
            [sample_task, second_task] 1 [''baseline'', ''with-gnapsis''] ''sonnet'' False
          = Inl (TypeError, st) \<and>
     length (cell_order 1 [sample_task, second_task] [''baseline'', ''with-gnapsis'']) = 4 \<and>
     completed st = 1 \<and> all_results st = [r] \<and>
     (run_id r, task_id r, condition r) = (1, ''T1'', ''baseline'') \<and>
     \<not> has_key (attrs r) ''error'' \<and>
     dict_get (attrs r) ''input_tokens'' (JNum 0) = JNull \<and>
     history st = [Started 1 ''T1'' ''baseline'', Saved ''T1_baseline_run1.json'' r] \<and>
     written st ''T1_baseline_run1.json'' = Some (OneResult r) \<and>
     written st ''all_results.json'' = None"
proof -
  let ?run = "run_benchmark null_tokens_loads (\<lambda>k. (Completed 0 null_tokens_stdout [], 12.5))
            [sample_task, second_task] 1 [''baseline'', ''with-gnapsis''] ''sonnet'' False"
  let ?ok = "\<lambda>st r.
     (run_id r, task_id r, condition r) = (1, ''T1'', ''baseline'') \<and>
     \<not> has_key (attrs r) ''error'' \<and>
     dict_get (attrs r) ''input_tokens'' (JNum 0) = JNull \<and>
     history st = [Started 1 ''T1'' ''baseline'', Saved ''T1_baseline_run1.json'' r] \<and>
     written st ''T1_baseline_run1.json'' = Some (OneResult r) \<and>
     written st ''all_results.json'' = None"
  have "case ?run of
          Inl (e, st) \<Rightarrow>
            e = TypeError \<and> completed st = 1 \<and> length (all_results st) = 1 \<and>
            ?ok st (hd (all_results st))
        | Inr st \<Rightarrow> False"
    by code_simp
  then obtain st where run: "?run = Inl (TypeError, st)" and c: "completed st = 1"
    and len: "length (all_results st) = 1" and ok: "?ok st (hd (all_results st))"
    by (auto split: sum.splits)
  from len obtain r where r: "all_results st = [r]"
    by (cases "all_results st") auto
  have cells:
    "length (cell_order 1 [sample_task, second_task] [''baseline'', ''with-gnapsis'']) = 4"
    by (simp add: cell_order_def)
  from ok r have "?ok st r" by simp
  with run c r cells show ?thesis by blast
qed

section \<open>The aggregator\<close>

subsection \<open>Loading\<close>

text \<open>Storing the total changes none of the three counts it is computed from.\<close>

lemma total_input_tokens_dict_set:
  "total_input_tokens (dict_set d ''total_input_tokens'' v) = total_input_tokens d"
  by (simp add: total_input_tokens_def dict_get_dict_set split: sum.splits)

lemma dict_set_twice: "dict_set (dict_set d k v) k w = dict_set d k w"
  by (simp add: dict_set_def AList.update_last)

lemma total_input_tokens_numbers:
  assumes "dict_get d ''input_tokens'' (JNum 0) = JNum a"
    and "dict_get d ''cache_read_input_tokens'' (JNum 0) = JNum b"
    and "dict_get d ''cache_creation_input_tokens'' (JNum 0) = JNum c"
  shows "total_input_tokens d = Inr (JNum (a + b + c))"
  using assms by (simp add: total_input_tokens_def)

text \<open>Every loaded record is a record of the directory with its total set anew.\<close>

lemma load_results_origin:
  "load_results listing = Inr results \<Longrightarrow> r \<in> set results \<Longrightarrow>
   \<exists>name data tot. (name, data) \<in> set listing \<and> name \<noteq> ''all_results.json'' \<and>
     \<not> has_key (attrs data) ''error'' \<and> total_input_tokens (attrs data) = Inr tot \<and>
     r = data\<lparr>attrs := dict_set (attrs data) ''total_input_tokens'' tot\<rparr>"
proof (induction listing arbitrary: results)
  case Nil
  then show ?case by simp
next
  case (Cons p rest)
  obtain name data where p: "p = (name, data)" by (cases p)
  show ?case
  proof (cases "name = ''all_results.json'' \<or> has_key (attrs data) ''error''")
    case True
    with Cons.prems p have "load_results rest = Inr results" by auto
    from Cons.IH [OF this Cons.prems(2)] show ?thesis by auto
  next
    case False
    with Cons.prems(1) p obtain tot results' where
      t: "total_input_tokens (attrs data) = Inr tot" and
      l: "load_results rest = Inr results'" and
      r: "results = data\<lparr>attrs := dict_set (attrs data) ''total_input_tokens'' tot\<rparr> # results'"
      by (auto split: sum.splits)
    from Cons.prems(2) r
    consider "r = data\<lparr>attrs := dict_set (attrs data) ''total_input_tokens'' tot\<rparr>"
      | "r \<in> set results'" by auto
    then show ?thesis
    proof cases
      case 1
      with False t p show ?thesis by auto
    next
      case 2
      from Cons.IH [OF l 2] show ?thesis by auto
    qed
  qed
qed

text \<open>What the files store as total has no influence on what is loaded.\<close>

lemma load_results_overwrites:
  "load_results (map (\<lambda>(name, data).
       (name, data\<lparr>attrs := dict_set (attrs data) ''total_input_tokens'' (stored name data)\<rparr>))
     listing) = load_results listing"
proof (induction listing)
  case Nil
  then show ?case by simp
next
  case (Cons p rest)
  obtain name data where p: "p = (name, data)" by (cases p)
  show ?case
    using Cons.IH
    by (simp add: p has_key_dict_set total_input_tokens_dict_set dict_set_twice
          split: sum.splits)
qed

text \<open>
  Claim C7. Every record that \<open>load_results\<close> returns carries under
  \<open>total_input_tokens\<close> the sum of its \<open>input_tokens\<close>, \<open>cache_read_input_tokens\<close>
  and \<open>cache_creation_input_tokens\<close> (a missing count is 0), which for three numbers
  \<open>a\<close>, \<open>b\<close>, \<open>c\<close> is the number \<open>a + b + c\<close>; and the total is computed at load time:
  whatever totals the files store, the loaded records are the same.
\<close>

theorem load_results_total:
  "(load_results listing = Inr results \<and> r \<in> set results \<longrightarrow>
      total_input_tokens (attrs r) = Inr (dict_get (attrs r) ''total_input_tokens'' JNull) \<and>
      (dict_get (attrs r) ''input_tokens'' (JNum 0) = JNum a \<and>
       dict_get (attrs r) ''cache_read_input_tokens'' (JNum 0) = JNum b \<and>
       dict_get (attrs r) ''cache_creation_input_tokens'' (JNum 0) = JNum c \<longrightarrow>
         dict_get (attrs r) ''total_input_tokens'' JNull = JNum (a + b + c))) \<and>
   load_results (map (\<lambda>(name, data).
       (name, data\<lparr>attrs := dict_set (attrs data) ''total_input_tokens'' (stored name data)\<rparr>))
     listing) = load_results listing"
proof (intro conjI impI)
  show "load_results (map (\<lambda>(name, data).
       (name, data\<lparr>attrs := dict_set (attrs data) ''total_input_tokens'' (stored name data)\<rparr>))
     listing) = load_results listing"
    by (rule load_results_overwrites)
next
  assume "load_results listing = Inr results \<and> r \<in> set results"
  then obtain name data tot where
    t: "total_input_tokens (attrs data) = Inr tot" and
    r: "r = data\<lparr>attrs := dict_set (attrs data) ''total_input_tokens'' tot\<rparr>"
    using load_results_origin by blast
  show eq: "total_input_tokens (attrs r) = Inr (dict_get (attrs r) ''total_input_tokens'' JNull)"
    by (simp add: r t total_input_tokens_dict_set dict_get_dict_set)
  assume "dict_get (attrs r) ''input_tokens'' (JNum 0) = JNum a \<and>
       dict_get (attrs r) ''cache_read_input_tokens'' (JNum 0) = JNum b \<and>
       dict_get (attrs r) ''cache_creation_input_tokens'' (JNum 0) = JNum c"
  then have "total_input_tokens (attrs r) = Inr (JNum (a + b + c))"
    by (simp add: total_input_tokens_numbers)
  with eq show "dict_get (attrs r) ''total_input_tokens'' JNull = JNum (a + b + c)" by simp
qed

text \<open>
  A directory of four files: a run with a stale total of 999, the combined file, a
  failed run, and a run without cache counts. Two records are loaded, with the totals
  100 + 20 + 3 and 7.
\<close>

lemma stale_listing_eval:
  "load_results stale_listing =
     Inr [\<lparr>task_id = ''T1'', condition = ''baseline'', run_id = 1,
            attrs = [(''input_tokens'', JNum 100), (''cache_read_input_tokens'', JNum 20),
                     (''cache_creation_input_tokens'', JNum 3),
                     (''total_input_tokens'', JNum 123)]\<rparr>,
          \<lparr>task_id = ''T1'', condition = ''with-gnapsis'', run_id = 1,
            attrs = [(''input_tokens'', JNum 7), (''total_input_tokens'', JNum 7)]\<rparr>]"
  by (simp add: stale_listing_def has_key_def total_input_tokens_def dict_get_def dict_set_def)

theorem load_results_total_witness:
  "load_results stale_listing = Inr (projr (load_results stale_listing)) \<and>
   hd (projr (load_results stale_listing)) \<in> set (projr (load_results stale_listing)) \<and>
   dict_get (attrs (hd (projr (load_results stale_listing)))) ''total_input_tokens'' JNull
     = JNum (100 + 20 + 3) \<and>
   dict_get (attrs (snd (stale_listing ! 0))) ''total_input_tokens'' JNull = JNum 999"
  using load_results_total [of stale_listing "projr (load_results stale_listing)"
      "hd (projr (load_results stale_listing))" 100 20 3]
  by (simp add: stale_listing_eval) (simp add: stale_listing_def dict_get_def)

subsection \<open>Lists of results\<close>

lemma collect_map_Inr: "collect (map Inr ys) = Inr ys"
  by (induction ys) simp_all

lemma collect_Inr_D: "collect xs = Inr ys \<Longrightarrow> xs = map Inr ys"
proof (induction xs arbitrary: ys)
  case Nil
  then show ?case by simp
next
  case (Cons x xs)
  from Cons.prems obtain v vs where
    x: "x = Inr v" and c: "collect xs = Inr vs" and ys: "ys = v # vs"
    by (auto split: sum.splits)
  from Cons.IH [OF c] x ys show ?case by simp
qed

lemma collect_Inr_iff: "collect xs = Inr ys \<longleftrightarrow> xs = map Inr ys"
  using collect_Inr_D collect_map_Inr by blast

lemma collect_map_member:
  assumes "collect (map f xs) = Inr ys" and "y \<in> set ys"
  shows "\<exists>x\<in>set xs. f x = Inr y"
proof -
  from assms(1) have "map f xs = map Inr ys" by (simp add: collect_Inr_iff)
  then have "set (map f xs) = set (map Inr ys)" by simp
  with assms(2) have "Inr y \<in> f ` set xs" by auto
  then show ?thesis by auto
qed

lemma those_length: "those xs = Some ys \<Longrightarrow> length ys = length xs"
  by (induction xs arbitrary: ys) (auto split: option.splits)

subsection \<open>Grouping\<close>

text \<open>
  The loop of \<open>aggregate\<close> over the results keeps, for every key seen so far, the
  records with that key in the order of their arrival, and nothing else.
\<close>

lemma group_runs_map_of:
  assumes "distinct (map fst grouped)"
    and "\<And>k. map_of grouped k =
           (if k \<in> (\<lambda>r. (task_id r, condition r)) ` set pre
            then Some (filter (\<lambda>r. (task_id r, condition r) = k) pre) else None)"
  shows "distinct (map fst (group_runs rs grouped)) \<and>
         (\<forall>k. map_of (group_runs rs grouped) k =
           (if k \<in> (\<lambda>r. (task_id r, condition r)) ` set (pre @ rs)
            then Some (filter (\<lambda>r. (task_id r, condition r) = k) (pre @ rs)) else None))"
  using assms
proof (induction rs arbitrary: grouped pre)
  case Nil
  then show ?case by simp
next
  case (Cons r rs)
  let ?key = "\<lambda>r. (task_id r, condition r)"
  let ?k0 = "(task_id r, condition r)"
  let ?grouped' = "case map_of grouped ?k0 of
          None \<Rightarrow> grouped @ [(?k0, [r])]
        | Some runs \<Rightarrow> AList.update ?k0 (runs @ [r]) grouped"
  have d: "distinct (map fst ?grouped')"
  proof (cases "map_of grouped ?k0")
    case None
    then have "?k0 \<notin> fst ` set grouped" by (simp add: map_of_eq_None_iff)
    with Cons.prems(1) None show ?thesis by simp
  next
    case (Some runs)
    with Cons.prems(1) show ?thesis by (simp add: distinct_update)
  qed
  have m: "map_of ?grouped' k =
           (if k \<in> ?key ` set (pre @ [r])
            then Some (filter (\<lambda>r. ?key r = k) (pre @ [r])) else None)" for k
  proof (cases "map_of grouped ?k0")
    case None
    with Cons.prems(2) [of ?k0] have notin: "?k0 \<notin> ?key ` set pre"
      by (auto split: if_splits)
    then have empty: "filter (\<lambda>r'. ?key r' = ?k0) pre = []"
      by (auto simp: filter_empty_conv image_iff)
    show ?thesis
    proof (cases "k = ?k0")
      case True
      with None empty notin show ?thesis by (simp add: map_of_append map_add_def)
    next
      case False
      with None Cons.prems(2) [of k] show ?thesis
        by (auto simp: map_of_append map_add_def split: option.splits)
    qed
  next
    case (Some runs)
    with Cons.prems(2) [of ?k0]
    have runs: "runs = filter (\<lambda>r'. ?key r' = ?k0) pre" and isin: "?k0 \<in> ?key ` set pre"
      by (auto split: if_splits)
    show ?thesis
    proof (cases "k = ?k0")
      case True
      with Some runs show ?thesis by (simp add: update_conv')
    next
      case False
      with Some Cons.prems(2) [of k] show ?thesis
        by (auto simp: update_conv')
    qed
  qed
  from Cons.IH [of ?grouped' "pre @ [r]", OF d m] show ?case by simp
qed

lemma group_runs_member:
  assumes "(k, runs) \<in> set (group_runs results [])"
  shows "runs = runs_of results (fst k) (snd k)"
proof -
  have inv: "distinct (map fst (group_runs results [])) \<and>
         (\<forall>k. map_of (group_runs results []) k =
           (if k \<in> (\<lambda>r. (task_id r, condition r)) ` set results
            then Some (filter (\<lambda>r. (task_id r, condition r) = k) results) else None))"
    using group_runs_map_of [of "[]" "[]" results] by simp
  from inv have d: "distinct (map fst (group_runs results []))" by blast
  from inv have m: "map_of (group_runs results []) k =
           (if k \<in> (\<lambda>r. (task_id r, condition r)) ` set results
            then Some (filter (\<lambda>r. (task_id r, condition r) = k) results) else None)"
    by blast
  from assms d have "map_of (group_runs results []) k = Some runs" by simp
  with m have "runs = filter (\<lambda>r. (task_id r, condition r) = k) results"
    by (simp split: if_splits)
  also have "\<dots> = runs_of results (fst k) (snd k)"
    unfolding runs_of_def by (rule filter_cong) auto
  finally show ?thesis .
qed

subsection \<open>The columns of an entry\<close>

text \<open>The three columns of a metric have names of their own.\<close>

lemma mean_not_median: "k @ ''_mean'' \<noteq> k' @ ''_median''"
proof
  assume "k @ ''_mean'' = k' @ ''_median''"
  then have "rev (k @ ''_mean'') = rev (k' @ ''_median'')" by simp
  then show False by simp
qed

lemma mean_not_stdev: "k @ ''_mean'' \<noteq> k' @ ''_stdev''"
proof
  assume "k @ ''_mean'' = k' @ ''_stdev''"
  then have "rev (k @ ''_mean'') = rev (k' @ ''_stdev'')" by simp
  then show False by simp
qed

lemma median_not_stdev: "k @ ''_median'' \<noteq> k' @ ''_stdev''"
proof
  assume "k @ ''_median'' = k' @ ''_stdev''"
  then have "rev (k @ ''_median'') = rev (k' @ ''_stdev'')" by simp
  then show False by simp
qed

lemmas column_names =
  mean_not_median mean_not_median [symmetric]
  mean_not_stdev mean_not_stdev [symmetric]
  median_not_stdev median_not_stdev [symmetric]

lemma metric_loop_other:
  "metric_loop runs ks entry = Inr cols \<Longrightarrow> k \<notin> set ks \<Longrightarrow>
   dict_get cols (k @ ''_mean'') d = dict_get entry (k @ ''_mean'') d \<and>
   dict_get cols (k @ ''_median'') d = dict_get entry (k @ ''_median'') d \<and>
   dict_get cols (k @ ''_stdev'') d = dict_get entry (k @ ''_stdev'') d"
proof (induction ks arbitrary: entry)
  case Nil
  then show ?case by simp
next
  case (Cons k' ks)
  from Cons.prems(1) obtain s where
    s: "metric_stats runs k' = Inr s" and
    l: "metric_loop runs ks
          (dict_set (dict_set (dict_set entry (k' @ ''_mean'') (JNum (mean s)))
                       (k' @ ''_median'') (JNum (median s)))
             (k' @ ''_stdev'') (JNum (stdev s))) = Inr cols"
    by (auto split: sum.splits)
  from Cons.prems(2) have ne: "k \<noteq> k'" and notin: "k \<notin> set ks" by auto
  from Cons.IH [OF l notin] ne show ?case
    by (simp add: dict_get_dict_set column_names)
qed

text \<open>After the loop, the columns of every metric hold the statistics of that metric.\<close>

lemma metric_loop_get:
  "metric_loop runs ks entry = Inr cols \<Longrightarrow> k \<in> set ks \<Longrightarrow> distinct ks \<Longrightarrow>
   \<exists>s. metric_stats runs k = Inr s \<and>
     dict_get cols (k @ ''_mean'') d = JNum (mean s) \<and>
     dict_get cols (k @ ''_median'') d = JNum (median s) \<and>
     dict_get cols (k @ ''_stdev'') d = JNum (stdev s)"
proof (induction ks arbitrary: entry)
  case Nil
  then show ?case by simp
next
  case (Cons k' ks)
  from Cons.prems(1) obtain s where
    s: "metric_stats runs k' = Inr s" and
    l: "metric_loop runs ks
          (dict_set (dict_set (dict_set entry (k' @ ''_mean'') (JNum (mean s)))
                       (k' @ ''_median'') (JNum (median s)))
             (k' @ ''_stdev'') (JNum (stdev s))) = Inr cols"
    by (auto split: sum.splits)
  show ?case
  proof (cases "k = k'")
    case True
    with Cons.prems(3) have "k \<notin> set ks" by simp
    from metric_loop_other [OF l this] True s show ?thesis
      by (simp add: dict_get_dict_set column_names)
  next
    case False
    with Cons.prems have "k \<in> set ks" "distinct ks" by auto
    from Cons.IH [OF l this] show ?thesis .
  qed
qed

lemma METRICS_distinct: "distinct (map fst METRICS)"
  by (simp add: METRICS_def)

lemma make_entry_identity:
  assumes "make_entry key runs = Inr e"
  shows "entry_task_id e = fst key \<and> entry_condition e = snd key \<and> n_runs e = length runs"
  using assms by (auto simp: make_entry_def split: sum.splits)

lemma make_entry_quality:
  assumes "make_entry key runs = Inr e"
  shows "\<exists>s. metric_stats runs ''quality_score'' = Inr s \<and>
     dict_get (columns e) ''quality_score_mean'' d = JNum (mean s) \<and>
     dict_get (columns e) ''quality_score_median'' d = JNum (median s) \<and>
     dict_get (columns e) ''quality_score_stdev'' d = JNum (stdev s)"
proof -
  from assms obtain cols m where
    l: "metric_loop runs (map fst METRICS) [] = Inr cols" and
    e: "columns e = dict_set cols ''total_tokens_mean'' (JNum m)"
    by (auto simp: make_entry_def split: sum.splits)
  have "''quality_score'' \<in> set (map fst METRICS)" by (simp add: METRICS_def)
  from metric_loop_get [OF l this METRICS_distinct, of d] e show ?thesis
    by (simp add: dict_get_dict_set)
qed

subsection \<open>The statistics of the quality score\<close>

lemma filter_nonneg_those:
  "filter_nonneg vals = Inr vals' \<Longrightarrow>
   \<exists>xs. those (map num_of vals) = Some xs \<and>
        those (map num_of vals') = Some (filter (\<lambda>x. 0 \<le> x) xs)"
proof (induction vals arbitrary: vals')
  case Nil
  then show ?case by simp
next
  case (Cons v vs)
  from Cons.prems obtain keep rest where
    k: "py_ge0 v = Inr keep" and r: "filter_nonneg vs = Inr rest" and
    v: "vals' = (if keep then v # rest else rest)"
    by (auto split: sum.splits)
  from k obtain x where x: "num_of v = Some x" and keep: "keep = (0 \<le> x)"
    by (auto simp: py_ge0_def split: option.splits)
  from Cons.IH [OF r] obtain xs where
    "those (map num_of vs) = Some xs"
    "those (map num_of rest) = Some (filter (\<lambda>x. 0 \<le> x) xs)" by auto
  with x keep v show ?case by simp
qed

lemma compute_stats_stats_of:
  assumes "those (map num_of vals) = Some xs"
  shows "compute_stats vals = Inr (stats_of xs)"
proof -
  from assms have "length xs = length vals" by (auto dest: those_length)
  then have "xs = [] \<longleftrightarrow> vals = []" by auto
  with assms show ?thesis by (auto simp: compute_stats_def stats_of_def)
qed

lemma metric_stats_quality:
  assumes "metric_stats runs ''quality_score'' = Inr s"
  shows "\<exists>xs. those (map num_of (metric_values runs ''quality_score'')) = Some xs \<and>
     s = stats_of (filter (\<lambda>x. 0 \<le> x) xs)"
proof -
  from assms obtain vals where
    f: "filter_nonneg (metric_values runs ''quality_score'') = Inr vals" and
    c: "compute_stats vals = Inr s"
    by (auto simp: metric_stats_def split: sum.splits)
  from filter_nonneg_those [OF f] obtain xs where
    xs: "those (map num_of (metric_values runs ''quality_score'')) = Some xs" and
    ys: "those (map num_of vals) = Some (filter (\<lambda>x. 0 \<le> x) xs)" by auto
  from compute_stats_stats_of [OF ys] c have "s = stats_of (filter (\<lambda>x. 0 \<le> x) xs)" by simp
  with xs show ?thesis by auto
qed

text \<open>Every entry of the report stands for the runs of its task under its condition.\<close>

lemma aggregate_entry:
  assumes "aggregate results = Inr report" and "e \<in> set report"
  shows "make_entry (entry_task_id e, entry_condition e)
           (runs_of results (entry_task_id e) (entry_condition e)) = Inr e"
proof -
  from collect_map_member [OF assms [unfolded aggregate_def]]
  obtain key runs where
    g: "(key, runs) \<in> set (sort_key fst (group_runs results []))" and
    m: "make_entry key runs = Inr e" by auto
  from g have "(key, runs) \<in> set (group_runs results [])" by simp
  then have r: "runs = runs_of results (fst key) (snd key)" by (rule group_runs_member)
  from make_entry_identity [OF m] have "key = (entry_task_id e, entry_condition e)"
    by (cases key) simp
  with r m show ?thesis by simp
qed

text \<open>
  Claim C2. For every entry of the report that \<open>aggregate\<close> returns, the scores of the
  entry's group (the \<open>quality_score\<close> values of the runs of its task under its
  condition that have one) are numbers \<open>xs\<close>, and the entry's columns
  \<open>quality_score_mean\<close>, \<open>quality_score_median\<close> and \<open>quality_score_stdev\<close> are the
  statistics of the scores that are at least 0: the negative ones are left out before
  the statistics are computed.
\<close>

theorem quality_stats_exclude_sentinels:
  assumes "aggregate results = Inr report" and "e \<in> set report"
  shows "\<exists>xs. those (map num_of (metric_values
                  (runs_of results (entry_task_id e) (entry_condition e)) ''quality_score''))
               = Some xs \<and>
     dict_get (columns e) ''quality_score_mean'' JNull
       = JNum (mean (stats_of (filter (\<lambda>x. 0 \<le> x) xs))) \<and>
     dict_get (columns e) ''quality_score_median'' JNull
       = JNum (median (stats_of (filter (\<lambda>x. 0 \<le> x) xs))) \<and>
     dict_get (columns e) ''quality_score_stdev'' JNull
       = JNum (stdev (stats_of (filter (\<lambda>x. 0 \<le> x) xs)))"
proof -
  let ?runs = "runs_of results (entry_task_id e) (entry_condition e)"
  from make_entry_quality [OF aggregate_entry [OF assms], of JNull] obtain s where
    s: "metric_stats ?runs ''quality_score'' = Inr s" and
    cols: "dict_get (columns e) ''quality_score_mean'' JNull = JNum (mean s)"
      "dict_get (columns e) ''quality_score_median'' JNull = JNum (median s)"
      "dict_get (columns e) ''quality_score_stdev'' JNull = JNum (stdev s)"
    by auto
  from metric_stats_quality [OF s] cols show ?thesis by auto
qed

text \<open>
  The scores 8, -1 and 9 of one group: the report has one entry, for three runs; its
  mean is that of 8 and 9, over two samples.
\<close>

lemma sentinel_runs_group:
  "runs_of sentinel_runs ''T1'' ''baseline'' = sentinel_runs"
  by (simp add: runs_of_def sentinel_runs_def)

lemma sentinel_runs_values:
  "metric_values sentinel_runs ''quality_score'' = [JNum 8, JNum (- 1), JNum 9]"
  by (simp add: metric_values_def sentinel_runs_def dict_get_def)

lemma sentinel_runs_stats:
  "metric_stats sentinel_runs k =
     Inr (if k = ''quality_score'' then stats_of [8, 9] else stats_of [])"
proof (cases "k = ''quality_score''")
  case True
  have "those (map num_of [JNum 8, JNum 9]) = Some [8, 9]" by simp
  from compute_stats_stats_of [OF this] True show ?thesis
    by (simp add: metric_stats_def sentinel_runs_values py_ge0_def)
next
  case False
  have "metric_values sentinel_runs k = []"
    using False by (simp add: metric_values_def sentinel_runs_def dict_get_def)
  with False show ?thesis
    by (simp add: metric_stats_def compute_stats_def stats_of_def)
qed

lemma metric_loop_returns:
  assumes "\<And>k. \<exists>s. metric_stats runs k = Inr s"
  shows "\<exists>cols. metric_loop runs ks entry = Inr cols"
proof (induction ks arbitrary: entry)
  case Nil
  then show ?case by simp
next
  case (Cons k ks)
  from assms [of k] obtain s where "metric_stats runs k = Inr s" by blast
  with Cons.IH show ?case by simp
qed

lemma sentinel_runs_aggregate:
  "\<exists>cols. aggregate sentinel_runs =
     Inr [\<lparr>entry_task_id = ''T1'', entry_condition = ''baseline'', n_runs = 3,
            columns = cols\<rparr>]"
proof -
  have g: "group_runs sentinel_runs [] = [((''T1'', ''baseline''), sentinel_runs)]"
    by (simp add: sentinel_runs_def)
  obtain cols where l: "metric_loop sentinel_runs (map fst METRICS) [] = Inr cols"
    using metric_loop_returns [of sentinel_runs "map fst METRICS" "[]"] sentinel_runs_stats
    by auto
  have t: "\<exists>m. total_tokens_mean sentinel_runs = Inr m"
    by (simp add: total_tokens_mean_def sentinel_runs_def dict_get_def)
  then obtain m where m: "total_tokens_mean sentinel_runs = Inr m" by blast
  have n: "length sentinel_runs = 3" by (simp add: sentinel_runs_def)
  show ?thesis
    by (simp add: aggregate_def g make_entry_def l m n)
qed

theorem quality_stats_exclude_sentinels_witness:
  "\<exists>report e. aggregate sentinel_runs = Inr report \<and> e \<in> set report \<and> n_runs e = 3 \<and>
     those (map num_of (metric_values
        (runs_of sentinel_runs (entry_task_id e) (entry_condition e)) ''quality_score''))
       = Some [8, - 1, 9] \<and>
     dict_get (columns e) ''quality_score_mean'' JNull = JNum (17 / 2) \<and>
     dict_get (columns e) ''quality_score_median'' JNull = JNum (17 / 2) \<and>
     samples (stats_of (filter (\<lambda>x. 0 \<le> x) [8, - 1, 9])) = 2"
proof -
  from sentinel_runs_aggregate obtain cols where
    agg: "aggregate sentinel_runs =
      Inr [\<lparr>entry_task_id = ''T1'', entry_condition = ''baseline'', n_runs = 3,
             columns = cols\<rparr>]"
    by blast
  let ?e = "\<lparr>entry_task_id = ''T1'', entry_condition = ''baseline'', n_runs = 3,
             columns = cols\<rparr>"
  have mem: "?e \<in> set [?e]" by simp
  have vals: "those (map num_of (metric_values
        (runs_of sentinel_runs (entry_task_id ?e) (entry_condition ?e)) ''quality_score''))
       = Some [8, - 1, 9]"
    by (simp add: sentinel_runs_group sentinel_runs_values)
  from quality_stats_exclude_sentinels [OF agg mem] vals
  have cols: "dict_get (columns ?e) ''quality_score_mean'' JNull
       = JNum (mean (stats_of (filter (\<lambda>x. 0 \<le> x) [8, - 1, 9])))"
    "dict_get (columns ?e) ''quality_score_median'' JNull
       = JNum (median (stats_of (filter (\<lambda>x. 0 \<le> x) [8, - 1, 9])))"
    by auto
  have st: "mean (stats_of (filter (\<lambda>x. 0 \<le> x) [8, - 1, 9])) = 17 / 2"
    "median (stats_of (filter (\<lambda>x. 0 \<le> x) [8, - 1, 9])) = 17 / 2"
    "samples (stats_of (filter (\<lambda>x. 0 \<le> x) [8, - 1, 9])) = 2"
    by (simp_all add: stats_of_def statistics_mean_def statistics_median_def)
  from agg mem vals cols st show ?thesis
    by (intro exI [of _ "[?e]"] exI [of _ ?e]) simp
qed

end
